theory Spec2Isabelle
  imports Complex_Main "HOL-Library.Log_Nat"
begin

section \<open>JavaScript numbers\<close>

text \<open>
  The progress engine of \<^verbatim>\<open>src/main/database/database.ts\<close> computes the module
  percentage as \<^verbatim>\<open>Math.round((totalCompleted / totalItems) * 100)\<close> and the certificate
  threshold as \<^verbatim>\<open>lessons.length * 0.8\<close>, and adds the time spent on a lesson as
  \<^verbatim>\<open>(existing.time_spent || 0) + progressData.timeSpent\<close>. These are IEEE-754 binary64
  computations, so they are modelled with the rounding of binary64: a double is a
  rational with a 53-bit significand, and every arithmetic operation returns the double
  nearest to the exact result, ties going to the even significand. Exponent overflow
  (results beyond \<open>1.8 \<times> 10\<^sup>3\<^sup>0\<^sup>8\<close>), subnormal numbers, infinities and \<^verbatim>\<open>NaN\<close> are
  left out.
\<close>

definition round_half_even :: "rat \<Rightarrow> int" where
  "round_half_even x =
     (let f = \<lfloor>x\<rfloor>; d = x - of_int f
      in if d < 1/2 then f else if 1/2 < d then f + 1 else if even f then f else f + 1)"

text \<open>\<open>binade x\<close> is the exponent \<open>e\<close> with \<open>2\<^sup>e \<le> x < 2\<^sup>e\<^sup>+\<^sup>1\<close>, for positive \<open>x\<close>.\<close>

definition binade :: "rat \<Rightarrow> int" where
  "binade x =
     (let (a, b) = quotient_of x; e0 = bitlen a - bitlen b
      in if power_int 2 e0 \<le> x then e0 else e0 - 1)"

text \<open>\<open>fl x\<close> is the binary64 number nearest to \<open>x\<close>.\<close>

definition fl :: "rat \<Rightarrow> rat" where
  "fl x = (if x = 0 then 0
           else let s = power_int 2 (52 - binade \<bar>x\<bar>)
                in sgn x * of_int (round_half_even (\<bar>x\<bar> * s)) / s)"

text \<open>The operators \<^verbatim>\<open>/\<close>, \<^verbatim>\<open>*\<close> and \<^verbatim>\<open>+\<close> on doubles (the divisor is never zero where
  the code divides: \<^verbatim>\<open>totalItems === 0\<close> returns before).\<close>

definition js_div :: "rat \<Rightarrow> rat \<Rightarrow> rat" where
  "js_div a b = fl (a / b)"

definition js_mul :: "rat \<Rightarrow> rat \<Rightarrow> rat" where
  "js_mul a b = fl (a * b)"

definition js_add :: "rat \<Rightarrow> rat \<Rightarrow> rat" where
  "js_add a b = fl (a + b)"

text \<open>\<^verbatim>\<open>Math.round\<close> rounds to the nearest integer, halves towards plus infinity.\<close>

definition Math_round :: "rat \<Rightarrow> int" where
  "Math_round x = \<lfloor>x + 1/2\<rfloor>"

text \<open>The literal \<^verbatim>\<open>0.8\<close>.\<close>

definition dbl_0_8 :: rat where
  "dbl_0_8 = fl (4/5)"

text \<open>\<^verbatim>\<open>x || 0\<close> on a number: zero is falsy and is replaced by zero.\<close>

definition js_or0 :: "rat \<Rightarrow> rat" where
  "js_or0 x = (if x = 0 then 0 else x)"

text \<open>Template-literal rendering of a non-negative integer.\<close>

definition digit_char :: "nat \<Rightarrow> char" where
  "digit_char d = char_of (48 + d)"

fun show_nat :: "nat \<Rightarrow> string" where
  "show_nat n = (if n < 10 then [digit_char n]
                 else show_nat (n div 10) @ [digit_char (n mod 10)])"

declare show_nat.simps [simp del]


section \<open>The store\<close>

text \<open>
  The five tables of \<^verbatim>\<open>schema.sql\<close>. A table is the list of its rows in insertion
  order. Timestamps (\<^verbatim>\<open>new Date().toISOString()\<close>, \<^verbatim>\<open>Date.now()\<close>) are modelled by
  their epoch-millisecond value. The time spent (\<^verbatim>\<open>timeSpent\<close>, \<^verbatim>\<open>time_spent\<close>) is
  a JavaScript number that the code adds with \<^verbatim>\<open>+\<close>: it is modelled as the rational
  value of a double, added with the rounding of binary64 (a number written to the
  \<^verbatim>\<open>time_spent\<close> column is read back as the same number). The bookkeeping columns
  \<^verbatim>\<open>created_at\<close>, \<^verbatim>\<open>updated_at\<close> and \<^verbatim>\<open>issued_at\<close>, which no operation reads, are left out, as are
  the user and module columns the progress engine never touches. Foreign keys are
  declared in the schema but the code never switches their enforcement on, so they
  do not constrain inserts.
\<close>

type_synonym timestamp = nat

record user_row =
  u_id :: nat
  u_username :: string
  u_email :: string

record lesson =
  l_id :: string
  l_title :: string

record quiz =
  q_id :: string
  q_afterLessonId :: "string option"
  q_passingScore :: int

text \<open>The parsed content document; \<^verbatim>\<open>lessons\<close> and \<^verbatim>\<open>quizzes\<close> may be absent
  (the code reads them with \<^verbatim>\<open>?.\<close> and \<^verbatim>\<open>||\<close>).\<close>

record module_content =
  lessons :: "lesson list option"
  quizzes :: "quiz list option"

text \<open>The \<^verbatim>\<open>content\<close> column is text: the empty string, a string that
  \<^verbatim>\<open>JSON.parse\<close> rejects, or the serialisation of a content document (whose
  \<^verbatim>\<open>lessons\<close> and \<^verbatim>\<open>quizzes\<close>, when present, are arrays).\<close>

datatype content_text = Text_empty | Text_invalid | Text_json module_content

record module_row =
  m_id :: nat
  m_title :: string
  m_content :: content_text

record user_progress_row =
  up_id :: nat
  up_user_id :: nat
  up_module_id :: nat
  up_progress_percentage :: int
  up_completed :: bool
  up_started_at :: "timestamp option"
  up_completion_date :: "timestamp option"
  up_total_time_spent :: int
  up_last_accessed :: timestamp

record lesson_progress_row =
  lp_id :: nat
  lp_user_id :: nat
  lp_module_id :: nat
  lp_lesson_id :: string
  lp_completed :: bool
  lp_time_spent :: rat
  lp_quiz_score :: "int option"
  lp_quiz_attempts :: int
  lp_completed_at :: "timestamp option"

record certificate_data =
  cd_user :: string
  cd_module :: string
  cd_completionDate :: timestamp
  cd_timeSpent :: rat

record certificate_row =
  c_id :: nat
  c_user_id :: nat
  c_module_id :: nat
  c_certificate_code :: string
  c_certificate_data :: certificate_data
  c_verified :: bool

text \<open>The \<^verbatim>\<open>seq_\<close> fields are the \<^verbatim>\<open>sqlite_sequence\<close> counters of the
  \<^verbatim>\<open>AUTOINCREMENT\<close> keys.\<close>

record db =
  users :: "user_row list"
  modules :: "module_row list"
  user_progress :: "user_progress_row list"
  lesson_progress :: "lesson_progress_row list"
  certificates :: "certificate_row list"
  seq_user_progress :: nat
  seq_lesson_progress :: nat
  seq_certificates :: nat

text \<open>
  What a store call can throw: a statement error of SQLite (I/O error, database not
  initialised), a violated \<^verbatim>\<open>UNIQUE\<close> constraint, or the \<^verbatim>\<open>SyntaxError\<close> of
  \<^verbatim>\<open>JSON.parse\<close>.

  Statement errors come from outside the program, so every operation takes a fault
  pattern: \<open>flt i\<close> says that the store statement at position \<open>i\<close> of the operation
  rejects. Positions count the statements in the order of the program text, the two
  branches of an \<^verbatim>\<open>if\<close> that each issue one statement sharing a position. In the
  same way \<open>clk i\<close> is the time read by the \<open>i\<close>-th \<^verbatim>\<open>new Date()\<close> or
  \<^verbatim>\<open>Date.now()\<close> of the operation, in the order of the program text. A statement
  that rejects leaves the store unchanged.
\<close>

datatype exn = SQLITE_ERROR | SQLITE_CONSTRAINT | SyntaxError

type_synonym faults = "nat \<Rightarrow> bool"

type_synonym clock = "nat \<Rightarrow> timestamp"

definition no_faults :: faults where
  "no_faults = (\<lambda>i. False)"

text \<open>\<^verbatim>\<open>this.get\<close>: the first matching row, if any; \<^verbatim>\<open>this.query\<close>: all of them.\<close>

definition db_get :: "bool \<Rightarrow> ('r \<Rightarrow> bool) \<Rightarrow> 'r list \<Rightarrow> exn + 'r option" where
  "db_get err p rows = (if err then Inl SQLITE_ERROR else Inr (find p rows))"

definition db_query :: "bool \<Rightarrow> ('r \<Rightarrow> bool) \<Rightarrow> 'r list \<Rightarrow> exn + 'r list" where
  "db_query err p rows = (if err then Inl SQLITE_ERROR else Inr (filter p rows))"

text \<open>\<^verbatim>\<open>AUTOINCREMENT\<close>: one more than the largest key the table ever held.\<close>

definition next_rowid :: "nat \<Rightarrow> nat list \<Rightarrow> nat" where
  "next_rowid seq ids = Suc (fold max ids seq)"

text \<open>\<^verbatim>\<open>lesson_id LIKE "lesson-%"\<close>: the pattern is a literal prefix followed by
  \<^verbatim>\<open>%\<close>, and \<^verbatim>\<open>LIKE\<close> ignores the case of ASCII letters.\<close>

definition ascii_lower :: "char \<Rightarrow> char" where
  "ascii_lower c =
     (let n = (of_char c :: nat) in if 65 \<le> n \<and> n \<le> 90 then char_of (n + 32) else c)"

definition sql_like_prefix :: "string \<Rightarrow> string \<Rightarrow> bool" where
  "sql_like_prefix pre s = (map ascii_lower (take (length pre) s) = map ascii_lower pre)"

definition is_lesson_id :: "string \<Rightarrow> bool" where
  "is_lesson_id s = sql_like_prefix ''lesson-'' s"

definition is_quiz_id :: "string \<Rightarrow> bool" where
  "is_quiz_id s = sql_like_prefix ''quiz-'' s"

subsection \<open>The SQL statements\<close>

text \<open>\<^verbatim>\<open>INSERT INTO user_progress (user_id, module_id, started_at, last_accessed)\<close>;
  the other columns take their defaults.\<close>

definition insert_user_progress ::
  "bool \<Rightarrow> nat \<Rightarrow> nat \<Rightarrow> timestamp \<Rightarrow> timestamp \<Rightarrow> db \<Rightarrow> exn + db" where
  "insert_user_progress err uid mid t_started t_accessed s =
     (if err then Inl SQLITE_ERROR
      else if list_ex (\<lambda>r. up_user_id r = uid \<and> up_module_id r = mid) (user_progress s)
      then Inl SQLITE_CONSTRAINT
      else let rid = next_rowid (seq_user_progress s) (map up_id (user_progress s))
           in Inr (s\<lparr>user_progress := user_progress s @
                       [\<lparr>up_id = rid, up_user_id = uid, up_module_id = mid,
                         up_progress_percentage = 0, up_completed = False,
                         up_started_at = Some t_started, up_completion_date = None,
                         up_total_time_spent = 0, up_last_accessed = t_accessed\<rparr>],
                     seq_user_progress := rid\<rparr>))"

text \<open>\<^verbatim>\<open>UPDATE user_progress SET last_accessed = ? WHERE user_id = ? AND module_id = ?\<close>\<close>

definition update_last_accessed :: "bool \<Rightarrow> timestamp \<Rightarrow> nat \<Rightarrow> nat \<Rightarrow> db \<Rightarrow> exn + db" where
  "update_last_accessed err t uid mid s =
     (if err then Inl SQLITE_ERROR
      else Inr (s\<lparr>user_progress :=
                   map (\<lambda>r. if up_user_id r = uid \<and> up_module_id r = mid
                             then r\<lparr>up_last_accessed := t\<rparr> else r) (user_progress s)\<rparr>))"

text \<open>\<^verbatim>\<open>UPDATE lesson_progress SET completed = ?, time_spent = ?, quiz_score = ?,
  completed_at = ? WHERE user_id = ? AND module_id = ? AND lesson_id = ?\<close>\<close>

definition update_lesson_progress ::
  "bool \<Rightarrow> bool \<Rightarrow> rat \<Rightarrow> int option \<Rightarrow> timestamp option \<Rightarrow> nat \<Rightarrow> nat \<Rightarrow> string \<Rightarrow> db \<Rightarrow> exn + db"
  where
  "update_lesson_progress err cmp ts qs cat uid mid lid s =
     (if err then Inl SQLITE_ERROR
      else Inr (s\<lparr>lesson_progress :=
                   map (\<lambda>r. if lp_user_id r = uid \<and> lp_module_id r = mid \<and> lp_lesson_id r = lid
                             then r\<lparr>lp_completed := cmp, lp_time_spent := ts,
                                    lp_quiz_score := qs, lp_completed_at := cat\<rparr>
                             else r) (lesson_progress s)\<rparr>))"

text \<open>\<^verbatim>\<open>INSERT INTO lesson_progress (user_id, module_id, lesson_id, completed,
  time_spent, quiz_score, completed_at)\<close>\<close>

definition insert_lesson_progress ::
  "bool \<Rightarrow> nat \<Rightarrow> nat \<Rightarrow> string \<Rightarrow> bool \<Rightarrow> rat \<Rightarrow> int option \<Rightarrow> timestamp option \<Rightarrow> db \<Rightarrow> exn + db"
  where
  "insert_lesson_progress err uid mid lid cmp ts qs cat s =
     (if err then Inl SQLITE_ERROR
      else if list_ex (\<lambda>r. lp_user_id r = uid \<and> lp_module_id r = mid \<and> lp_lesson_id r = lid)
                (lesson_progress s)
      then Inl SQLITE_CONSTRAINT
      else let rid = next_rowid (seq_lesson_progress s) (map lp_id (lesson_progress s))
           in Inr (s\<lparr>lesson_progress := lesson_progress s @
                       [\<lparr>lp_id = rid, lp_user_id = uid, lp_module_id = mid, lp_lesson_id = lid,
                         lp_completed = cmp, lp_time_spent = ts, lp_quiz_score = qs,
                         lp_quiz_attempts = 0, lp_completed_at = cat\<rparr>],
                     seq_lesson_progress := rid\<rparr>))"

text \<open>\<^verbatim>\<open>UPDATE user_progress SET progress_percentage = ?, completed = ?,
  completion_date = ? WHERE user_id = ? AND module_id = ?\<close>\<close>

definition update_user_progress ::
  "bool \<Rightarrow> int \<Rightarrow> bool \<Rightarrow> timestamp option \<Rightarrow> nat \<Rightarrow> nat \<Rightarrow> db \<Rightarrow> exn + db" where
  "update_user_progress err pct cmp cdate uid mid s =
     (if err then Inl SQLITE_ERROR
      else Inr (s\<lparr>user_progress :=
                   map (\<lambda>r. if up_user_id r = uid \<and> up_module_id r = mid
                             then r\<lparr>up_progress_percentage := pct, up_completed := cmp,
                                    up_completion_date := cdate\<rparr>
                             else r) (user_progress s)\<rparr>))"

text \<open>\<^verbatim>\<open>INSERT INTO certificates (user_id, module_id, certificate_code,
  certificate_data)\<close>, under \<^verbatim>\<open>certificate_code UNIQUE\<close> and
  \<^verbatim>\<open>UNIQUE (user_id, module_id)\<close>; returns the new state and \<^verbatim>\<open>lastID\<close>.\<close>

definition insert_certificate ::
  "bool \<Rightarrow> nat \<Rightarrow> nat \<Rightarrow> string \<Rightarrow> certificate_data \<Rightarrow> db \<Rightarrow> exn + db \<times> nat" where
  "insert_certificate err uid mid code cdata s =
     (if err then Inl SQLITE_ERROR
      else if list_ex (\<lambda>c. c_certificate_code c = code) (certificates s) then Inl SQLITE_CONSTRAINT
      else if list_ex (\<lambda>c. c_user_id c = uid \<and> c_module_id c = mid) (certificates s)
      then Inl SQLITE_CONSTRAINT
      else let rid = next_rowid (seq_certificates s) (map c_id (certificates s))
           in Inr (s\<lparr>certificates := certificates s @
                       [\<lparr>c_id = rid, c_user_id = uid, c_module_id = mid,
                         c_certificate_code = code, c_certificate_data = cdata,
                         c_verified = True\<rparr>],
                     seq_certificates := rid\<rparr>, rid))"

text \<open>\<^verbatim>\<open>DELETE FROM user_progress WHERE user_id = ? AND module_id = ?\<close> and
  \<^verbatim>\<open>DELETE FROM lesson_progress WHERE user_id = ? AND module_id = ?\<close>; each returns
  the new state and \<^verbatim>\<open>changes\<close>.\<close>

definition delete_user_progress :: "bool \<Rightarrow> nat \<Rightarrow> nat \<Rightarrow> db \<Rightarrow> exn + db \<times> nat" where
  "delete_user_progress err uid mid s =
     (if err then Inl SQLITE_ERROR
      else Inr (s\<lparr>user_progress :=
                   filter (\<lambda>r. \<not> (up_user_id r = uid \<and> up_module_id r = mid)) (user_progress s)\<rparr>,
                length (filter (\<lambda>r. up_user_id r = uid \<and> up_module_id r = mid) (user_progress s))))"

definition delete_lesson_progress :: "bool \<Rightarrow> nat \<Rightarrow> nat \<Rightarrow> db \<Rightarrow> exn + db \<times> nat" where
  "delete_lesson_progress err uid mid s =
     (if err then Inl SQLITE_ERROR
      else Inr (s\<lparr>lesson_progress :=
                   filter (\<lambda>r. \<not> (lp_user_id r = uid \<and> lp_module_id r = mid)) (lesson_progress s)\<rparr>,
                length (filter (\<lambda>r. lp_user_id r = uid \<and> lp_module_id r = mid)
                          (lesson_progress s))))"


section \<open>The operations\<close>

text \<open>The uniform result envelope \<^verbatim>\<open>{success, data?, error?}\<close>, with the error
  messages of the operations as constructors.\<close>

datatype api_error =
    Module_or_user_not_found
  | Module_not_sufficiently_completed
  | Failed_to_retrieve_generated_certificate
  | Failed_to_generate_certificate exn
  | Failed_to_retrieve_updated_progress
  | Failed_to_update_progress exn
  | Failed_to_reset_progress exn

datatype 'a api_response = Success 'a | Failure api_error

record progressData =
  pd_userId :: nat
  pd_moduleId :: nat
  pd_lessonId :: string
  pd_completed :: bool
  pd_timeSpent :: rat
  pd_quizScore :: "int option"

text \<open>\<^verbatim>\<open>module.content ? JSON.parse(module.content) : { lessons: [], quizzes: [] }\<close>\<close>

definition parseContent :: "content_text \<Rightarrow> exn + module_content" where
  "parseContent c =
     (case c of
        Text_empty \<Rightarrow> Inr \<lparr>lessons = Some [], quizzes = Some []\<rparr>
      | Text_invalid \<Rightarrow> Inl SyntaxError
      | Text_json d \<Rightarrow> Inr d)"

text \<open>\<^verbatim>\<open>xs?.length || 0\<close> and \<^verbatim>\<open>xs || []\<close>\<close>

definition length_or0 :: "'a list option \<Rightarrow> nat" where
  "length_or0 xs = (case xs of None \<Rightarrow> 0 | Some ys \<Rightarrow> length ys)"

definition list_or_empty :: "'a list option \<Rightarrow> 'a list" where
  "list_or_empty xs = (case xs of None \<Rightarrow> [] | Some ys \<Rightarrow> ys)"

subsection \<open>updateModuleCompletionStatus\<close>

text \<open>The body of the \<^verbatim>\<open>try\<close> block (database.ts, lines 494-544). Store statements
  in program order: 0 the module, 1 the completed-lesson count, 2 the completed-quiz
  count, 3 the current progress row, 4 the update.\<close>

definition updateModuleCompletionStatus_body ::
  "faults \<Rightarrow> timestamp \<Rightarrow> nat \<Rightarrow> nat \<Rightarrow> db \<Rightarrow> exn + db" where
  "updateModuleCompletionStatus_body flt now userId moduleId s =
     (case db_get (flt 0) (\<lambda>m. m_id m = moduleId) (modules s) of
        Inl e \<Rightarrow> Inl e
      | Inr None \<Rightarrow> Inr s
      | Inr (Some mrow) \<Rightarrow>
         (case parseContent (m_content mrow) of
            Inl e \<Rightarrow> Inl e
          | Inr parsedContent \<Rightarrow>
             let totalLessons = length_or0 (lessons parsedContent);
                 totalQuizzes = length_or0 (quizzes parsedContent);
                 totalItems = totalLessons + totalQuizzes
             in if totalItems = 0 then Inr s
                else
                 (case db_query (flt 1)
                         (\<lambda>r. lp_user_id r = userId \<and> lp_module_id r = moduleId \<and>
                               lp_completed r \<and> is_lesson_id (lp_lesson_id r))
                         (lesson_progress s) of
                    Inl e \<Rightarrow> Inl e
                  | Inr completedLessonsResult \<Rightarrow>
                     (case db_query (flt 2)
                             (\<lambda>r. lp_user_id r = userId \<and> lp_module_id r = moduleId \<and>
                                   lp_completed r \<and> is_quiz_id (lp_lesson_id r) \<and>
                                   lp_quiz_score r \<noteq> None)
                             (lesson_progress s) of
                        Inl e \<Rightarrow> Inl e
                      | Inr completedQuizzesResult \<Rightarrow>
                         let completedLessons = length completedLessonsResult;
                             completedQuizzes = length completedQuizzesResult;
                             totalCompleted = completedLessons + completedQuizzes;
                             progressPercentage =
                               Math_round (js_mul (js_div (of_nat totalCompleted)
                                                          (of_nat totalItems)) 100);
                             isCompleted = (totalLessons \<le> completedLessons \<and>
                                            totalQuizzes \<le> completedQuizzes)
                         in (case db_get (flt 3)
                                    (\<lambda>r. up_user_id r = userId \<and> up_module_id r = moduleId)
                                    (user_progress s) of
                               Inl e \<Rightarrow> Inl e
                             | Inr None \<Rightarrow> Inr s
                             | Inr (Some currentProgress) \<Rightarrow>
                                let wasAlreadyCompleted = up_completed currentProgress;
                                    completionDate =
                                      (if isCompleted \<and> \<not> wasAlreadyCompleted then Some now
                                       else up_completion_date currentProgress)
                                in update_user_progress (flt 4) progressPercentage isCompleted
                                     completionDate userId moduleId s)))))"

text \<open>The \<^verbatim>\<open>catch\<close> only logs: an exception leaves the store as it was.\<close>

definition updateModuleCompletionStatus :: "faults \<Rightarrow> timestamp \<Rightarrow> nat \<Rightarrow> nat \<Rightarrow> db \<Rightarrow> db" where
  "updateModuleCompletionStatus flt now userId moduleId s =
     (case updateModuleCompletionStatus_body flt now userId moduleId s of
        Inl e \<Rightarrow> s
      | Inr s' \<Rightarrow> s')"

subsection \<open>updateLessonProgress\<close>

text \<open>Lines 374-397: the module-progress row is created or touched. Statements 0
  and 1; clock readings 0 and 1 (insert) or 2 (update).\<close>

definition touchModuleProgress :: "faults \<Rightarrow> clock \<Rightarrow> progressData \<Rightarrow> db \<Rightarrow> exn + db" where
  "touchModuleProgress flt clk pd s =
     (case db_get (flt 0) (\<lambda>r. up_user_id r = pd_userId pd \<and> up_module_id r = pd_moduleId pd)
             (user_progress s) of
        Inl e \<Rightarrow> Inl e
      | Inr None \<Rightarrow>
          insert_user_progress (flt 1) (pd_userId pd) (pd_moduleId pd) (clk 0) (clk 1) s
      | Inr (Some moduleProgress) \<Rightarrow>
          update_last_accessed (flt 1) (clk 2) (pd_userId pd) (pd_moduleId pd) s)"

text \<open>Lines 399-434: the lesson-progress row is updated or created. Statements 2
  and 3; clock reading 3 (update) or 4 (insert).\<close>

definition upsertLessonProgress :: "faults \<Rightarrow> clock \<Rightarrow> progressData \<Rightarrow> db \<Rightarrow> exn + db" where
  "upsertLessonProgress flt clk pd s =
     (case db_get (flt 2)
             (\<lambda>r. lp_user_id r = pd_userId pd \<and> lp_module_id r = pd_moduleId pd \<and>
                   lp_lesson_id r = pd_lessonId pd)
             (lesson_progress s) of
        Inl e \<Rightarrow> Inl e
      | Inr (Some existing) \<Rightarrow>
          let newTimeSpent = js_add (js_or0 (lp_time_spent existing)) (pd_timeSpent pd)
          in update_lesson_progress (flt 3) (pd_completed pd) newTimeSpent
               (if pd_quizScore pd \<noteq> None then pd_quizScore pd else lp_quiz_score existing)
               (if pd_completed pd then Some (clk 3) else lp_completed_at existing)
               (pd_userId pd) (pd_moduleId pd) (pd_lessonId pd) s
      | Inr None \<Rightarrow>
          insert_lesson_progress (flt 3) (pd_userId pd) (pd_moduleId pd) (pd_lessonId pd)
            (pd_completed pd) (pd_timeSpent pd) (pd_quizScore pd)
            (if pd_completed pd then Some (clk 4) else None) s)"

text \<open>The whole operation (lines 365-453). The recomputation issues statements 4 to
  8 and reads clock 5; statement 9 reads the row back. A statement that rejects
  changes nothing, so the store returned with a failure is the store reached before
  the rejected statement.\<close>

definition updateLessonProgress ::
  "faults \<Rightarrow> clock \<Rightarrow> progressData \<Rightarrow> db \<Rightarrow> db \<times> lesson_progress_row api_response" where
  "updateLessonProgress flt clk pd s =
     (case touchModuleProgress flt clk pd s of
        Inl e \<Rightarrow> (s, Failure (Failed_to_update_progress e))
      | Inr s1 \<Rightarrow>
         (case upsertLessonProgress flt clk pd s1 of
            Inl e \<Rightarrow> (s1, Failure (Failed_to_update_progress e))
          | Inr s2 \<Rightarrow>
             let s3 = updateModuleCompletionStatus (\<lambda>i. flt (i + 4)) (clk 5)
                        (pd_userId pd) (pd_moduleId pd) s2
             in (case db_get (flt 9)
                        (\<lambda>r. lp_user_id r = pd_userId pd \<and> lp_module_id r = pd_moduleId pd \<and>
                              lp_lesson_id r = pd_lessonId pd)
                        (lesson_progress s3) of
                   Inl e \<Rightarrow> (s3, Failure (Failed_to_update_progress e))
                 | Inr None \<Rightarrow> (s3, Failure Failed_to_retrieve_updated_progress)
                 | Inr (Some updatedProgress) \<Rightarrow> (s3, Success updatedProgress))))"

subsection \<open>getModuleProgress, resetModuleProgress\<close>

definition getModuleProgress ::
  "faults \<Rightarrow> nat \<Rightarrow> nat \<Rightarrow> db \<Rightarrow> user_progress_row option \<times> lesson_progress_row list" where
  "getModuleProgress flt userId moduleId s =
     (case db_get (flt 0) (\<lambda>r. up_user_id r = userId \<and> up_module_id r = moduleId)
             (user_progress s) of
        Inl e \<Rightarrow> (None, [])
      | Inr moduleProgress \<Rightarrow>
         (case db_query (flt 1) (\<lambda>r. lp_user_id r = userId \<and> lp_module_id r = moduleId)
                 (lesson_progress s) of
            Inl e \<Rightarrow> (None, [])
          | Inr lessonProgress \<Rightarrow> (moduleProgress, lessonProgress)))"

text \<open>The success message carries \<^verbatim>\<open>result.changes\<close> of the second delete.\<close>

definition resetModuleProgress :: "faults \<Rightarrow> nat \<Rightarrow> nat \<Rightarrow> db \<Rightarrow> db \<times> nat api_response" where
  "resetModuleProgress flt userId moduleId s =
     (case delete_user_progress (flt 0) userId moduleId s of
        Inl e \<Rightarrow> (s, Failure (Failed_to_reset_progress e))
      | Inr (s1, n1) \<Rightarrow>
         (case delete_lesson_progress (flt 1) userId moduleId s1 of
            Inl e \<Rightarrow> (s1, Failure (Failed_to_reset_progress e))
          | Inr (s2, changes) \<Rightarrow> (s2, Success changes)))"

subsection \<open>generateCertificate, verifyCertificate\<close>

text \<open>\<^verbatim>\<open>`CERT-${Date.now()}-${userId}-${moduleId}`\<close>\<close>

definition certificateCode :: "timestamp \<Rightarrow> nat \<Rightarrow> nat \<Rightarrow> string" where
  "certificateCode now userId moduleId =
     ''CERT-'' @ show_nat now @ ''-'' @ show_nat userId @ ''-'' @ show_nat moduleId"

text \<open>Lines 550-604. Statements: 0 the completed rows, 1 the module, 2 the user, 3
  the insert, 4 the read-back. Clock readings: 0 \<^verbatim>\<open>Date.now()\<close>, 1 the completion
  date of the certificate data.\<close>

definition generateCertificate ::
  "faults \<Rightarrow> clock \<Rightarrow> nat \<Rightarrow> nat \<Rightarrow> db \<Rightarrow> db \<times> certificate_row api_response" where
  "generateCertificate flt clk userId moduleId s =
     (case db_query (flt 0)
             (\<lambda>r. lp_user_id r = userId \<and> lp_module_id r = moduleId \<and> lp_completed r)
             (lesson_progress s) of
        Inl e \<Rightarrow> (s, Failure (Failed_to_generate_certificate e))
      | Inr lessonProgress \<Rightarrow>
         (case db_get (flt 1) (\<lambda>m. m_id m = moduleId) (modules s) of
            Inl e \<Rightarrow> (s, Failure (Failed_to_generate_certificate e))
          | Inr mopt \<Rightarrow>
             (case db_get (flt 2) (\<lambda>u. u_id u = userId) (users s) of
                Inl e \<Rightarrow> (s, Failure (Failed_to_generate_certificate e))
              | Inr uopt \<Rightarrow>
                 (case (mopt, uopt) of
                    (Some mrow, Some urow) \<Rightarrow>
                      (case parseContent (m_content mrow) of
                         Inl e \<Rightarrow> (s, Failure (Failed_to_generate_certificate e))
                       | Inr parsedContent \<Rightarrow>
                          let lessons' = list_or_empty (lessons parsedContent)
                          in if of_nat (length lessonProgress)
                                  < js_mul (of_nat (length lessons')) dbl_0_8
                             then (s, Failure Module_not_sufficiently_completed)
                             else
                              let code = certificateCode (clk 0) userId moduleId;
                                  certificateData =
                                    \<lparr>cd_user = u_username urow, cd_module = m_title mrow,
                                     cd_completionDate = clk 1,
                                     cd_timeSpent =
                                       foldl (\<lambda>total p. js_add total (js_or0 (lp_time_spent p))) 0
                                         lessonProgress\<rparr>
                              in (case insert_certificate (flt 3) userId moduleId code
                                         certificateData s of
                                    Inl e \<Rightarrow> (s, Failure (Failed_to_generate_certificate e))
                                  | Inr (s', lastID) \<Rightarrow>
                                     (case db_get (flt 4) (\<lambda>c. c_id c = lastID)
                                             (certificates s') of
                                        Inl e \<Rightarrow> (s', Failure (Failed_to_generate_certificate e))
                                      | Inr None \<Rightarrow>
                                          (s', Failure Failed_to_retrieve_generated_certificate)
                                      | Inr (Some newCertificate) \<Rightarrow>
                                          (s', Success newCertificate))))
                  | _ \<Rightarrow> (s, Failure Module_or_user_not_found)))))"

definition verifyCertificate :: "faults \<Rightarrow> string \<Rightarrow> db \<Rightarrow> certificate_row option" where
  "verifyCertificate flt code s =
     (case db_get (flt 0) (\<lambda>c. c_certificate_code c = code) (certificates s) of
        Inl e \<Rightarrow> None
      | Inr certificate \<Rightarrow> certificate)"


section \<open>Observations, call sequences and sample data\<close>

text \<open>The rows the statements below talk about, looked up the way the operations
  look them up.\<close>

definition progress_row :: "db \<Rightarrow> nat \<Rightarrow> nat \<Rightarrow> user_progress_row option" where
  "progress_row s u m = find (\<lambda>r. up_user_id r = u \<and> up_module_id r = m) (user_progress s)"

definition lesson_row :: "db \<Rightarrow> nat \<Rightarrow> nat \<Rightarrow> string \<Rightarrow> lesson_progress_row option" where
  "lesson_row s u m l =
     find (\<lambda>r. lp_user_id r = u \<and> lp_module_id r = m \<and> lp_lesson_id r = l) (lesson_progress s)"

definition call_key :: "progressData \<Rightarrow> nat \<times> nat \<times> string" where
  "call_key pd = (pd_userId pd, pd_moduleId pd, pd_lessonId pd)"

definition stored_time_spent :: "db \<Rightarrow> nat \<times> nat \<times> string \<Rightarrow> rat option" where
  "stored_time_spent s k =
     (case k of (u, m, l) \<Rightarrow> map_option lp_time_spent (lesson_row s u m l))"

text \<open>What one call does to the stored time of its key: the first call stores the
  delta, a later one adds it to the stored number.\<close>

definition add_delta :: "rat option \<Rightarrow> rat \<Rightarrow> rat option" where
  "add_delta st d = Some (case st of None \<Rightarrow> d | Some t \<Rightarrow> js_add (js_or0 t) d)"

definition stored_or0 :: "rat option \<Rightarrow> rat" where
  "stored_or0 st = (case st of None \<Rightarrow> 0 | Some t \<Rightarrow> t)"

definition deltas_for :: "nat \<times> nat \<times> string \<Rightarrow> (clock \<times> progressData) list \<Rightarrow> rat list" where
  "deltas_for k cs = map (\<lambda>c. pd_timeSpent (snd c)) (filter (\<lambda>c. call_key (snd c) = k) cs)"

text \<open>A sequence of \<^verbatim>\<open>updateLessonProgress\<close> calls, each with its own clock, none
  hit by a store error.\<close>

fun run_calls :: "(clock \<times> progressData) list \<Rightarrow> db \<Rightarrow> db" where
  "run_calls [] s = s"
| "run_calls (c # cs) s = run_calls cs (fst (updateLessonProgress no_faults (fst c) (snd c) s))"

text \<open>Sample data: the module of the example scenario (three lessons, one quiz with
  passing score 70), one user, an empty progress store.\<close>

definition demo_user :: user_row where
  "demo_user = \<lparr>u_id = 1, u_username = ''amina'', u_email = ''amina@example.org''\<rparr>"

definition demo_content :: module_content where
  "demo_content =
     \<lparr>lessons = Some [\<lparr>l_id = ''lesson-1'', l_title = ''Sorting''\<rparr>,
                      \<lparr>l_id = ''lesson-2'', l_title = ''Searching''\<rparr>,
                      \<lparr>l_id = ''lesson-3'', l_title = ''Graphs''\<rparr>],
      quizzes = Some [\<lparr>q_id = ''quiz-1'', q_afterLessonId = Some ''lesson-2'',
                       q_passingScore = 70\<rparr>]\<rparr>"

definition demo_module :: module_row where
  "demo_module = \<lparr>m_id = 1, m_title = ''Algorithms'', m_content = Text_json demo_content\<rparr>"

definition demo_db :: db where
  "demo_db = \<lparr>users = [demo_user], modules = [demo_module], user_progress = [],
              lesson_progress = [], certificates = [],
              seq_user_progress = 0, seq_lesson_progress = 0, seq_certificates = 0\<rparr>"

definition demo_call :: "string \<Rightarrow> bool \<Rightarrow> rat \<Rightarrow> int option \<Rightarrow> progressData" where
  "demo_call l c t q =
     \<lparr>pd_userId = 1, pd_moduleId = 1, pd_lessonId = l, pd_completed = c, pd_timeSpent = t,
      pd_quizScore = q\<rparr>"

definition clock_at :: "timestamp \<Rightarrow> clock" where
  "clock_at t = (\<lambda>i. t + i)"

text \<open>The example scenario: lesson-1 (60 s), lesson-2 (90 s), quiz-1 with score 80
  (30 s), lesson-3 (45 s); then a certificate is issued.\<close>

definition demo_started :: db where
  "demo_started = run_calls [(clock_at 10, demo_call ''lesson-1'' True 60 None)] demo_db"

definition demo_done :: db where
  "demo_done =
     run_calls [(clock_at 20, demo_call ''lesson-2'' True 90 None),
                (clock_at 30, demo_call ''quiz-1'' True 30 (Some 80)),
                (clock_at 40, demo_call ''lesson-3'' True 45 None)] demo_started"

definition demo_certified :: db where
  "demo_certified = fst (generateCertificate no_faults (clock_at 90) 1 1 demo_done)"

text \<open>Two of the three lessons completed, without the quiz and with it.\<close>

definition demo_two_lessons :: db where
  "demo_two_lessons = run_calls [(clock_at 20, demo_call ''lesson-2'' True 90 None)] demo_started"

definition demo_two_lessons_quiz :: db where
  "demo_two_lessons_quiz =
     run_calls [(clock_at 30, demo_call ''quiz-1'' True 30 (Some 80))] demo_two_lessons"

text \<open>The quantities of the aggregate recomputation, read off the store: the totals
  of the module's content document (absent when the module is missing or its content
  does not parse), the two counts of completed rows, and the percentage expression.\<close>

definition module_totals :: "db \<Rightarrow> nat \<Rightarrow> (nat \<times> nat) option" where
  "module_totals s m =
     (case find (\<lambda>r. m_id r = m) (modules s) of
        None \<Rightarrow> None
      | Some mrow \<Rightarrow>
         (case parseContent (m_content mrow) of
            Inl e \<Rightarrow> None
          | Inr pc \<Rightarrow> Some (length_or0 (lessons pc), length_or0 (quizzes pc))))"

definition completedLessonsCount :: "db \<Rightarrow> nat \<Rightarrow> nat \<Rightarrow> nat" where
  "completedLessonsCount s u m =
     length (filter (\<lambda>r. lp_user_id r = u \<and> lp_module_id r = m \<and> lp_completed r \<and>
                          is_lesson_id (lp_lesson_id r)) (lesson_progress s))"

definition completedQuizzesCount :: "db \<Rightarrow> nat \<Rightarrow> nat \<Rightarrow> nat" where
  "completedQuizzesCount s u m =
     length (filter (\<lambda>r. lp_user_id r = u \<and> lp_module_id r = m \<and> lp_completed r \<and>
                          is_quiz_id (lp_lesson_id r) \<and> lp_quiz_score r \<noteq> None)
               (lesson_progress s))"

definition percentage :: "nat \<Rightarrow> nat \<Rightarrow> int" where
  "percentage c t = Math_round (js_mul (js_div (of_nat c) (of_nat t)) 100)"

definition set_aggregate ::
  "nat \<Rightarrow> nat \<Rightarrow> int \<Rightarrow> bool \<Rightarrow> timestamp option \<Rightarrow> user_progress_row \<Rightarrow> user_progress_row"
  where
  "set_aggregate u m pct cmp cdate r =
     (if up_user_id r = u \<and> up_module_id r = m
      then r\<lparr>up_progress_percentage := pct, up_completed := cmp, up_completion_date := cdate\<rparr>
      else r)"

text \<open>A store whose only module has a single lesson and no quiz list.\<close>

definition tiny_db :: db where
  "tiny_db =
     \<lparr>users = [demo_user],
      modules = [\<lparr>m_id = 1, m_title = ''Intro'',
                  m_content = Text_json \<lparr>lessons = Some [\<lparr>l_id = ''lesson-1'', l_title = ''Start''\<rparr>],
                                          quizzes = None\<rparr>\<rparr>],
      user_progress = [], lesson_progress = [], certificates = [],
      seq_user_progress = 0, seq_lesson_progress = 0, seq_certificates = 0\<rparr>"

text \<open>A store whose only module has forty lessons, \<^verbatim>\<open>lesson-1\<close> to \<^verbatim>\<open>lesson-40\<close>,
  of which the user has completed the first twenty-two.\<close>

definition forty_db :: db where
  "forty_db =
     \<lparr>users = [demo_user],
      modules = [\<lparr>m_id = 1, m_title = ''Long'',
                  m_content = Text_json
                    \<lparr>lessons = Some (map (\<lambda>i. \<lparr>l_id = ''lesson-'' @ show_nat i, l_title = ''Unit''\<rparr>)
                                      [1..<41]),
                     quizzes = Some []\<rparr>\<rparr>],
      user_progress = [\<lparr>up_id = 1, up_user_id = 1, up_module_id = 1,
                        up_progress_percentage = 55, up_completed = False,
                        up_started_at = Some 1, up_completion_date = None,
                        up_total_time_spent = 0, up_last_accessed = 5\<rparr>],
      lesson_progress =
        map (\<lambda>i. \<lparr>lp_id = i, lp_user_id = 1, lp_module_id = 1,
                   lp_lesson_id = ''lesson-'' @ show_nat i, lp_completed = True,
                   lp_time_spent = 0, lp_quiz_score = None, lp_quiz_attempts = 0,
                   lp_completed_at = Some 5\<rparr>) [1..<23],
      certificates = [],
      seq_user_progress = 1, seq_lesson_progress = 22, seq_certificates = 0\<rparr>"








text \<open>The rows \<^verbatim>\<open>generateCertificate\<close> counts, and the row it inserts.\<close>

definition completedRows :: "db \<Rightarrow> nat \<Rightarrow> nat \<Rightarrow> lesson_progress_row list" where
  "completedRows s u m =
     filter (\<lambda>r. lp_user_id r = u \<and> lp_module_id r = m \<and> lp_completed r) (lesson_progress s)"

definition new_certificate :: "clock \<Rightarrow> user_row \<Rightarrow> module_row \<Rightarrow> nat \<Rightarrow> nat \<Rightarrow> db \<Rightarrow> certificate_row"
  where
  "new_certificate clk urow mrow u m s =
     \<lparr>c_id = next_rowid (seq_certificates s) (map c_id (certificates s)),
      c_user_id = u, c_module_id = m,
      c_certificate_code = certificateCode (clk 0) u m,
      c_certificate_data =
        \<lparr>cd_user = u_username urow, cd_module = m_title mrow, cd_completionDate = clk 1,
         cd_timeSpent = foldl (\<lambda>total p. js_add total (js_or0 (lp_time_spent p))) 0
                          (completedRows s u m)\<rparr>,
      c_verified = True\<rparr>"

text \<open>A store whose only module has one lesson and one quiz.\<close>

definition duo_db :: db where
  "duo_db =
     \<lparr>users = [demo_user],
      modules = [\<lparr>m_id = 1, m_title = ''Duo'',
                  m_content = Text_json
                    \<lparr>lessons = Some [\<lparr>l_id = ''lesson-1'', l_title = ''Only''\<rparr>],
                     quizzes = Some [\<lparr>q_id = ''quiz-1'', q_afterLessonId = Some ''lesson-1'',
                                      q_passingScore = 70\<rparr>]\<rparr>\<rparr>],
      user_progress = [], lesson_progress = [], certificates = [],
      seq_user_progress = 0, seq_lesson_progress = 0, seq_certificates = 0\<rparr>"

text \<open>Rewriting the passing score of every quiz of every module (scores are the only
  thing changed), to state that an operation does not consult them.\<close>

definition rescore_content :: "(quiz \<Rightarrow> int) \<Rightarrow> content_text \<Rightarrow> content_text" where
  "rescore_content f c =
     (case c of
        Text_json d \<Rightarrow>
          Text_json (d\<lparr>quizzes := map_option (map (\<lambda>q. q\<lparr>q_passingScore := f q\<rparr>)) (quizzes d)\<rparr>)
      | _ \<Rightarrow> c)"

definition set_passingScores :: "(quiz \<Rightarrow> int) \<Rightarrow> db \<Rightarrow> db" where
  "set_passingScores f s =
     s\<lparr>modules := map (\<lambda>r. r\<lparr>m_content := rescore_content f (m_content r)\<rparr>) (modules s)\<rparr>"

text \<open>The aggregate columns of a ModuleProgress row.\<close>

definition aggregate_fields :: "user_progress_row \<Rightarrow> int \<times> bool \<times> timestamp option" where
  "aggregate_fields r = (up_progress_percentage r, up_completed r, up_completion_date r)"

text \<open>The other columns of a ModuleProgress row: key, owner pair, \<^verbatim>\<open>started_at\<close>,
  \<^verbatim>\<open>total_time_spent\<close> and \<^verbatim>\<open>last_accessed\<close>.\<close>

definition bookkeeping_fields ::
  "user_progress_row \<Rightarrow> nat \<times> nat \<times> nat \<times> timestamp option \<times> int \<times> timestamp" where
  "bookkeeping_fields r =
     (up_id r, up_user_id r, up_module_id r, up_started_at r, up_total_time_spent r,
      up_last_accessed r)"

text \<open>The fault pattern in which exactly the \<open>i\<close>-th statement rejects.\<close>

definition fault_at :: "nat \<Rightarrow> faults" where
  "fault_at i = (\<lambda>j. j = i)"

text \<open>The store after the lesson and the quiz of the one-lesson one-quiz module, the
  quiz answered with score 10 (the passing score is 70), when the module read of the
  recomputation of the quiz call was rejected: both rows are completed, the aggregate
  is the one of the lesson call.\<close>

definition duo_stale :: db where
  "duo_stale =
     fst (updateLessonProgress (fault_at 4) (clock_at 20) (demo_call ''quiz-1'' True 30 (Some 10))
            (run_calls [(clock_at 10, demo_call ''lesson-1'' True 60 None)] duo_db))"


section \<open>Properties of the double arithmetic\<close>

lemma round_half_even_err: "\<bar>of_int (round_half_even x) - x\<bar> \<le> 1/2"
  unfolding round_half_even_def Let_def by (auto simp: abs_if) linarith+

lemma round_half_even_near:
  assumes "\<bar>x - of_int j\<bar> < 1/2"
  shows "round_half_even x = j"
proof -
  have e: "\<bar>of_int (round_half_even x) - x\<bar> \<le> 1/2" by (rule round_half_even_err)
  have "\<bar>(of_int (round_half_even x) :: rat) - of_int j\<bar> < 1"
    using e assms by linarith
  then have "\<bar>of_int (round_half_even x - j) :: rat\<bar> < 1" by simp
  then have "\<bar>round_half_even x - j\<bar> < 1"
    by (metis of_int_abs of_int_less_1_iff)
  then show ?thesis by linarith
qed

lemma bitlen_bounds_rat:
  assumes "0 < (a::int)"
  shows "(2::rat) powi (bitlen a - 1) \<le> of_int a" and "of_int a < (2::rat) powi (bitlen a)"
proof -
  from bitlen_bounds[OF assms] have 1: "2 ^ nat (bitlen a - 1) \<le> a" and 2: "a < 2 ^ nat (bitlen a)"
    by auto
  have ge1: "1 \<le> bitlen a" using assms bitlen_eq_zero_iff[of a] bitlen_nonneg[of a] by linarith
  have "(of_int (2 ^ nat (bitlen a - 1)) :: rat) \<le> of_int a" using 1 by (simp only: of_int_le_iff)
  then show "(2::rat) powi (bitlen a - 1) \<le> of_int a"
    using ge1 by (simp add: power_int_nonneg_exp)
  have "(of_int a :: rat) < of_int (2 ^ nat (bitlen a))" using 2 by (simp only: of_int_less_iff)
  then show "of_int a < (2::rat) powi (bitlen a)"
    using ge1 by (simp add: power_int_nonneg_exp)
qed

lemma binade_bounds:
  assumes "0 < x"
  shows "(2::rat) powi (binade x) \<le> x" and "x < 2 powi (binade x + 1)"
proof -
  obtain a b where q: "quotient_of x = (a, b)" by (cases "quotient_of x")
  have b: "0 < b" using q by (rule quotient_of_denom_pos)
  have x: "x = of_int a / of_int b" using q by (rule quotient_of_div)
  have a: "0 < a" using assms b x by (simp add: zero_less_divide_iff)
  let ?e = "bitlen a - bitlen b"
  note A = bitlen_bounds_rat[OF a] and B = bitlen_bounds_rat[OF b]
  have bpos: "(0::rat) < of_int b" using b by simp
  have up: "x < 2 powi (?e + 1)"
  proof -
    have "x * of_int b < 2 powi (bitlen a)" using A(2) x bpos by simp
    also have "\<dots> = 2 powi (?e + 1) * 2 powi (bitlen b - 1)"
      by (simp add: power_int_add[symmetric])
    also have "\<dots> \<le> 2 powi (?e + 1) * of_int b"
      using B(1) by (simp add: mult_left_mono)
    finally show ?thesis using bpos by simp
  qed
  have lo: "2 powi (?e - 1) \<le> x"
  proof -
    have "2 powi (?e - 1) * of_int b \<le> 2 powi (?e - 1) * (2::rat) powi (bitlen b)"
      using B(2) by (simp add: mult_left_mono)
    also have "\<dots> = 2 powi (bitlen a - 1)" by (simp add: power_int_add[symmetric])
    also have "\<dots> \<le> x * of_int b" using A(1) x bpos by simp
    finally show ?thesis using bpos by simp
  qed
  have bin: "binade x = (if 2 powi ?e \<le> x then ?e else ?e - 1)"
    by (simp add: binade_def q)
  show "(2::rat) powi (binade x) \<le> x" using lo by (simp add: bin)
  show "x < 2 powi (binade x + 1)" using up by (auto simp add: bin not_le)
qed

lemma pow2_add: "(2::rat) powi a * 2 powi b = 2 powi (a + b)"
  by (simp add: power_int_add)

lemma fl_pos_unfold:
  assumes "0 < x"
  shows "fl x = of_int (round_half_even (x * 2 powi (52 - binade x))) / 2 powi (52 - binade x)"
  using assms by (simp add: fl_def Let_def)

lemma fl_near:
  assumes "0 < x" and "\<bar>x * 2 powi (52 - binade x) - of_int j\<bar> < 1/2"
  shows "fl x = of_int j / 2 powi (52 - binade x)"
  using assms by (simp add: fl_pos_unfold round_half_even_near)

lemma fl_err:
  assumes "0 < x"
  shows "\<bar>fl x - x\<bar> \<le> x / 2 ^ 53"
proof -
  let ?s = "(2::rat) powi (52 - binade x)"
  let ?r = "round_half_even (x * ?s)"
  have s: "0 < ?s" by simp
  have e: "\<bar>of_int ?r - x * ?s\<bar> \<le> 1/2" by (rule round_half_even_err)
  have "fl x - x = (of_int ?r - x * ?s) / ?s"
    using s by (simp add: fl_pos_unfold[OF assms] field_simps)
  then have "\<bar>fl x - x\<bar> = \<bar>of_int ?r - x * ?s\<bar> / ?s"
    using s by (simp add: abs_divide)
  also have "\<dots> \<le> (1/2) / ?s" using e s by (intro divide_right_mono) simp_all
  also have "\<dots> = 2 powi (binade x) / 2 ^ 53"
  proof -
    have "(2::rat) powi (binade x) * ?s = 2 powi (binade x + (52 - binade x))"
      by (rule pow2_add)
    then have "(2::rat) powi (binade x) * ?s = 2 ^ 52" by simp
    then show ?thesis using s by (simp add: field_simps)
  qed
  also have "\<dots> \<le> x / 2 ^ 53"
    using binade_bounds(1)[OF assms] by (simp add: divide_right_mono)
  finally show ?thesis .
qed

lemma fl_nonneg: "0 \<le> x \<Longrightarrow> 0 \<le> fl x"
proof (cases "x = 0")
  case True then show ?thesis by (simp add: fl_def)
next
  case False
  assume "0 \<le> x"
  with False have p: "0 < x" by simp
  have "\<bar>fl x - x\<bar> \<le> x / 2 ^ 53" by (rule fl_err[OF p])
  moreover have "x / 2 ^ 53 \<le> x" using p by (simp add: field_simps)
  ultimately show ?thesis by linarith
qed

lemma fl_pos: assumes "0 < x" shows "0 < fl x"
proof -
  have "\<bar>fl x - x\<bar> \<le> x / 2 ^ 53" by (rule fl_err[OF assms])
  moreover have "x / 2 ^ 53 < x" using assms by (simp add: field_simps)
  ultimately show ?thesis by linarith
qed

lemma fl_zero: "fl 0 = 0"
  by (simp add: fl_def)

lemma percent_err:
  assumes "0 < x"
  shows "\<bar>js_mul (fl x) 100 - 100 * x\<bar> \<le> 300 * x / 2 ^ 53"
proof -
  let ?u = "(1::rat) / 2 ^ 53"
  have e1: "\<bar>fl x - x\<bar> \<le> x * ?u" using fl_err[OF assms] by simp
  have p1: "0 < fl x * 100" using fl_pos[OF assms] by simp
  have e2: "\<bar>fl (fl x * 100) - fl x * 100\<bar> \<le> (fl x * 100) * ?u" using fl_err[OF p1] by simp
  have fx: "fl x \<le> x + x * ?u" using e1 by linarith
  have "(fl x * 100) * ?u \<le> ((x + x * ?u) * 100) * ?u"
    using fx by (intro mult_right_mono) simp_all
  also have "\<dots> \<le> 200 * x * ?u" using assms by (simp add: field_simps)
  finally have e3: "\<bar>fl (fl x * 100) - fl x * 100\<bar> \<le> 200 * x * ?u" using e2 by linarith
  have "\<bar>fl (fl x * 100) - 100 * x\<bar> \<le> 200 * x * ?u + 100 * (x * ?u)"
    using e1 e3 by linarith
  then show ?thesis by (simp add: js_mul_def field_simps)
qed

lemma percent_range:
  assumes "0 \<le> x" and "x \<le> 1"
  shows "0 \<le> Math_round (js_mul (fl x) 100)" and "Math_round (js_mul (fl x) 100) \<le> 100"
proof -
  have nn: "0 \<le> js_mul (fl x) 100"
    unfolding js_mul_def using assms(1) by (intro fl_nonneg mult_nonneg_nonneg) simp_all
  then show "0 \<le> Math_round (js_mul (fl x) 100)"
    by (simp add: Math_round_def)
  show "Math_round (js_mul (fl x) 100) \<le> 100"
  proof (cases "x = 0")
    case True
    then show ?thesis by (simp add: js_mul_def fl_zero Math_round_def)
  next
    case False
    with assms have p: "0 < x" by simp
    have "\<bar>js_mul (fl x) 100 - 100 * x\<bar> \<le> 300 * x / 2 ^ 53" by (rule percent_err[OF p])
    moreover have "300 * x / 2 ^ 53 \<le> 300 * 1 / 2 ^ 53"
      using assms(2) by (intro divide_right_mono mult_left_mono) simp_all
    moreover have "300 * 1 / 2 ^ 53 < (1/2 :: rat)" by simp
    moreover have "100 * x \<le> 100" using assms(2) by simp
    ultimately have "js_mul (fl x) 100 < 100 + 1/2" by linarith
    then show ?thesis by (simp add: Math_round_def floor_le_iff)
  qed
qed

lemma percent_exact:
  assumes t: "0 < t" and c: "c < 2 ^ 43" and nt: "(200 * c) mod (2 * t) \<noteq> t"
  shows "Math_round (js_mul (js_div (of_nat c) (of_nat t)) 100)
           = \<lfloor>100 * of_nat c / of_nat t + (1/2 :: rat)\<rfloor>"
proof (cases "c = 0")
  case True
  then show ?thesis by (simp add: js_mul_def js_div_def fl_zero Math_round_def)
next
  case False
  let ?x = "of_nat c / of_nat t :: rat"
  let ?p = "100 * of_nat c / of_nat t :: rat"
  let ?z = "js_mul (fl ?x) 100"
  let ?k = "\<lfloor>?p + 1/2\<rfloor>"
  have tp: "(0::rat) < of_nat t" using t by simp
  have xp: "0 < ?x" using False t by simp
  have err: "\<bar>?z - 100 * ?x\<bar> \<le> 300 * ?x / 2 ^ 53" by (rule percent_err[OF xp])
  have "600 * c < 2 ^ 53" using c by simp
  then have "(of_nat (600 * c) :: rat) < of_nat (2 ^ 53)" by (simp only: of_nat_less_iff)
  then have cb: "600 * (of_nat c :: rat) < 2 ^ 53" by simp
  have small: "300 * ?x / 2 ^ 53 < 1 / (2 * of_nat t)"
    using cb tp by (simp add: field_simps)
  define N where "N = 200 * int c + int t - 2 * int t * ?k"
  have Nrat: "?p + 1/2 - of_int ?k = of_int N / (2 * of_nat t)"
    using tp by (simp add: N_def field_simps)
  have lo0: "of_int ?k \<le> ?p + 1/2" by (rule of_int_floor_le)
  have hi0: "?p + 1/2 < of_int ?k + 1" using floor_correct[of "?p + 1/2"] by simp
  have N0: "0 \<le> N"
  proof -
    have "0 \<le> of_int N / (2 * of_nat t :: rat)" using lo0 Nrat by linarith
    then show ?thesis using tp by (simp add: zero_le_divide_iff)
  qed
  have N2: "N < 2 * int t"
  proof -
    have "of_int N / (2 * of_nat t :: rat) < 1" using hi0 Nrat by linarith
    then have "(of_int N :: rat) < 2 * of_nat t" using tp by (simp add: field_simps)
    then have "(of_int N :: rat) < of_int (2 * int t)" by simp
    then show ?thesis by (simp only: of_int_less_iff)
  qed
  have Nne: "N \<noteq> 0"
  proof
    assume "N = 0"
    then have eq: "200 * int c = 2 * int t * (?k - 1) + int t" by (simp add: N_def algebra_simps)
    have "(200 * int c) mod (2 * int t) = int t"
      unfolding eq using t by simp
    then have "int ((200 * c) mod (2 * t)) = int t" by (simp add: zmod_int)
    then show False using nt by simp
  qed
  have N1: "1 \<le> N" using N0 Nne by linarith
  have N3: "N \<le> 2 * int t - 1" using N2 by linarith
  have g1: "1 / (2 * of_nat t) \<le> ?p + 1/2 - of_int ?k"
  proof -
    have "(1::rat) \<le> of_int N" using N1 by simp
    then have "1 / (2 * of_nat t) \<le> of_int N / (2 * of_nat t :: rat)"
      using tp by (intro divide_right_mono) simp_all
    then show ?thesis using Nrat by simp
  qed
  have g2: "1 / (2 * of_nat t) \<le> of_int ?k + 1 - (?p + 1/2)"
  proof -
    have "(of_int N :: rat) \<le> of_int (2 * int t - 1)" using N3 by (simp only: of_int_le_iff)
    then have "(of_int N :: rat) \<le> 2 * of_nat t - 1" by simp
    then have "of_int N / (2 * of_nat t :: rat) \<le> (2 * of_nat t - 1) / (2 * of_nat t)"
      using tp by (intro divide_right_mono) simp_all
    also have "\<dots> = 1 - 1 / (2 * of_nat t)" using tp by (simp add: field_simps)
    finally show ?thesis using Nrat by linarith
  qed
  have px: "100 * ?x = ?p" by simp
  have "of_int ?k \<le> ?z + 1/2" and "?z + 1/2 < of_int ?k + 1"
    using err small g1 g2 px by linarith+
  then have "\<lfloor>?z + 1/2\<rfloor> = ?k" by (intro floor_unique) simp_all
  then show ?thesis by (simp add: Math_round_def js_div_def)
qed

lemma dbl_0_8_val: "dbl_0_8 = 3602879701896397 / 4503599627370496"
  unfolding dbl_0_8_def by code_simp

lemma dbl_0_8_split: "dbl_0_8 = 4/5 + 1 / (5 * 2 ^ 52)"
  by (simp add: dbl_0_8_val)

lemma threshold_tie:
  assumes k: "0 < k" and n: "n < 2 ^ 50" and eq: "5 * k = 4 * n"
  shows "js_mul (of_nat n) dbl_0_8 = of_nat k"
proof -
  define x :: rat where "x = of_nat n * dbl_0_8"
  define s :: rat where "s = 2 powi (52 - binade x)"
  have "(of_nat (5 * k) :: rat) = of_nat (4 * n)" using eq by (simp only:)
  then have nk: "(of_nat n :: rat) = 5 * of_nat k / 4" by simp
  have kp: "(0::rat) < of_nat k" using k by simp
  have xk: "x = of_nat k + of_nat k / 2 ^ 54"
    by (simp add: x_def nk dbl_0_8_split field_simps)
  have xp: "0 < x" using kp by (simp add: xk add_pos_pos)
  have "(of_nat n :: rat) < of_nat (2 ^ 50)" using n by (simp only: of_nat_less_iff)
  then have nb: "(of_nat n :: rat) < 2 ^ 50" by simp
  have "x \<le> of_nat n * 1"
    unfolding x_def by (intro mult_left_mono) (simp_all add: dbl_0_8_val)
  then have "x < 2 ^ 53" using nb by simp
  then have "(2::rat) powi (binade x) < 2 powi 53" using binade_bounds(1)[OF xp] by simp
  then have e: "binade x < 53"
    using power_int_increasing[of 53 "binade x" "2::rat"] by (cases "binade x < 53") simp_all
  define m where "m = nat (52 - binade x)"
  have s: "s = 2 ^ m" using e by (simp add: s_def m_def power_int_nonneg_exp)
  have sp: "0 < s" by (simp add: s)
  have klt: "of_nat k < (2::rat) powi (binade x + 1)"
  proof -
    have "of_nat k \<le> x" using kp by (simp add: xk)
    then show ?thesis using binade_bounds(2)[OF xp] by linarith
  qed
  have "of_nat k * s < 2 powi (binade x + 1) * s"
    using klt sp by (intro mult_strict_right_mono)
  also have "\<dots> = 2 powi (binade x + 1 + (52 - binade x))"
    unfolding s_def by (rule pow2_add)
  finally have ks: "of_nat k * s < 2 ^ 53" by simp
  have d: "x * s - of_int (int (k * 2 ^ m)) = of_nat k * s / 2 ^ 54"
    by (simp add: xk s field_simps)
  define y where "y = of_nat k * s"
  have "0 \<le> y" using sp by (simp add: y_def)
  moreover have "y < 2 ^ 53" using ks by (simp only: y_def)
  ultimately have "0 \<le> y / 2 ^ 54" and "y / 2 ^ 54 < 1/2" by simp_all
  then have "\<bar>x * s - of_int (int (k * 2 ^ m))\<bar> < 1/2"
    unfolding d y_def[symmetric] by linarith
  then have "fl x = of_int (int (k * 2 ^ m)) / s"
    unfolding s_def by (rule fl_near[OF xp])
  also have "\<dots> = of_nat k" by (simp add: s)
  finally show ?thesis by (simp add: js_mul_def x_def)
qed

lemma threshold_exact:
  assumes n: "n < 2 ^ 50"
  shows "(of_nat k < js_mul (of_nat n) dbl_0_8) = (5 * k < 4 * n)"
proof (cases "n = 0")
  case True
  then show ?thesis by (simp add: js_mul_def fl_zero)
next
  case False
  define x :: rat where "x = of_nat n * dbl_0_8"
  have np: "(0::rat) < of_nat n" using False by simp
  have xp: "0 < x" using np by (simp add: x_def dbl_0_8_val)
  have err: "\<bar>fl x - x\<bar> \<le> x / 2 ^ 53" by (rule fl_err[OF xp])
  have "(of_nat n :: rat) < of_nat (2 ^ 50)" using n by (simp only: of_nat_less_iff)
  then have nb: "(of_nat n :: rat) < 2 ^ 50" by simp
  have xv: "x = 4 * of_nat n / 5 + of_nat n / (5 * 2 ^ 52)"
    by (simp add: x_def dbl_0_8_split field_simps)
  have "x \<le> of_nat n * 1"
    unfolding x_def by (intro mult_left_mono) (simp_all add: dbl_0_8_val)
  then have "x < 2 ^ 50" using nb by simp
  then have xu: "x / 2 ^ 53 < 1 / 8" by simp
  have tail: "of_nat n / (5 * 2 ^ 52) < (1 / 20 :: rat)" using nb by simp
  have fx: "js_mul (of_nat n) dbl_0_8 = fl x" by (simp add: js_mul_def x_def)
  consider (lt) "5 * k < 4 * n" | (eq) "5 * k = 4 * n" | (gt) "4 * n < 5 * k" by linarith
  then show ?thesis
  proof cases
    case lt
    then have "5 * k + 1 \<le> 4 * n" by simp
    then have "(of_nat (5 * k + 1) :: rat) \<le> of_nat (4 * n)" by (simp only: of_nat_le_iff)
    then have "of_nat k + 1/5 \<le> 4 * of_nat n / (5 :: rat)" by simp
    moreover have "0 \<le> of_nat n / (5 * 2 ^ 52 :: rat)" by simp
    ultimately have "of_nat k < fl x" using err xu xv by linarith
    then show ?thesis using lt by (simp add: fx)
  next
    case eq
    with False have "0 < k" by simp
    from threshold_tie[OF this n eq] show ?thesis using eq by simp
  next
    case gt
    then have "4 * n + 1 \<le> 5 * k" by simp
    then have "(of_nat (4 * n + 1) :: rat) \<le> of_nat (5 * k)" by (simp only: of_nat_le_iff)
    then have "4 * of_nat n / (5 :: rat) + 1/5 \<le> of_nat k" by simp
    then have "fl x \<le> of_nat k" using err xu xv tail by linarith
    then show ?thesis using gt by (simp add: fx)
  qed
qed


text \<open>Whole numbers up to \<open>2\<^sup>5\<^sup>3\<close> are doubles, so an addition whose exact result is
  such a number is not rounded.\<close>

lemma round_half_even_of_int: "round_half_even (of_int j) = j"
  by (rule round_half_even_near) simp

lemma fl_of_nat:
  assumes "n \<le> 2 ^ 53"
  shows "fl (of_nat n) = of_nat n"
proof (cases "n = 0")
  case True
  then show ?thesis by (simp add: fl_zero)
next
  case False
  define x :: rat where "x = of_nat n"
  have p: "0 < x" using False by (simp add: x_def)
  define e where "e = binade x"
  define s :: rat where "s = 2 powi (52 - e)"
  have s: "0 < s" by (simp add: s_def)
  have lo: "2 powi e \<le> x" using binade_bounds(1)[OF p] by (simp add: e_def)
  have "x \<le> of_nat (2 ^ 53)" unfolding x_def using assms by (simp only: of_nat_le_iff)
  then have xle: "x \<le> 2 powi 53" by simp
  have e53: "e \<le> 53"
  proof -
    have "(2::rat) powi e \<le> 2 powi 53" using lo xle by linarith
    then show ?thesis by (rule power_int_le_imp_le_exp[rotated]) simp_all
  qed
  have "\<exists>j. x * s = of_int j"
  proof (cases "e \<le> 52")
    case True
    then have "s = 2 ^ nat (52 - e)" by (simp add: s_def power_int_def)
    then have "x * s = of_int (int n * 2 ^ nat (52 - e))" by (simp add: x_def)
    then show ?thesis by blast
  next
    case False
    with e53 have e: "e = 53" by linarith
    then have "2 ^ 53 \<le> x" using lo by simp
    with xle have "x = 2 ^ 53" by simp
    moreover have "s = 1 / 2" by (simp add: s_def e power_int_def)
    ultimately have "x * s = of_int (2 ^ 52)" by simp
    then show ?thesis by blast
  qed
  then obtain j where j: "x * s = of_int j" by blast
  have "fl x = of_int (round_half_even (x * s)) / s"
    using fl_pos_unfold[OF p] by (simp add: s_def e_def)
  also have "\<dots> = of_int j / s" by (simp only: j round_half_even_of_int)
  also have "\<dots> = x" using j s by (simp add: field_simps)
  finally show ?thesis by (simp add: x_def)
qed

lemma js_add_nat:
  assumes "a \<in> \<nat>" and "b \<in> \<nat>" and "a + b \<le> 2 ^ 53"
  shows "js_add a b = a + b"
proof -
  from assms(1,2) have "a + b \<in> \<nat>" by (rule Nats_add)
  then obtain n where n: "a + b = of_nat n" by (auto simp: Nats_def)
  have "(of_nat n :: rat) \<le> of_nat (2 ^ 53)" using assms(3) n by simp
  then have "n \<le> 2 ^ 53" by (simp only: of_nat_le_iff)
  then show ?thesis by (simp add: js_add_def n fl_of_nat)
qed


section \<open>Properties of the store statements and of the steps\<close>

lemma find_map_upd:
  assumes "\<And>x. P (g x) = P x"
  shows "find P (map (\<lambda>r. if Q r then g r else r) xs)
           = map_option (\<lambda>r. if Q r then g r else r) (find P xs)"
  using assms by (induction xs) auto

lemma find_append_new:
  "find P (xs @ [x]) = (case find P xs of Some y \<Rightarrow> Some y | None \<Rightarrow> if P x then Some x else None)"
  by (induction xs) auto

lemma list_ex_find_None: "find P xs = None \<Longrightarrow> \<not> list_ex P xs"
  by (simp add: find_None_iff list_ex_iff)

lemma touch_None:
  assumes "progress_row s (pd_userId pd) (pd_moduleId pd) = None"
  shows "touchModuleProgress no_faults clk pd s =
           Inr (s\<lparr>user_progress := user_progress s @
                   [\<lparr>up_id = next_rowid (seq_user_progress s) (map up_id (user_progress s)),
                     up_user_id = pd_userId pd, up_module_id = pd_moduleId pd,
                     up_progress_percentage = 0, up_completed = False,
                     up_started_at = Some (clk 0), up_completion_date = None,
                     up_total_time_spent = 0, up_last_accessed = clk 1\<rparr>],
                 seq_user_progress := next_rowid (seq_user_progress s) (map up_id (user_progress s))\<rparr>)"
  using assms list_ex_find_None[of _ "user_progress s"]
  by (simp add: touchModuleProgress_def progress_row_def db_get_def no_faults_def
        insert_user_progress_def Let_def)

lemma touch_Some:
  assumes "progress_row s (pd_userId pd) (pd_moduleId pd) = Some r"
  shows "touchModuleProgress no_faults clk pd s =
           Inr (s\<lparr>user_progress :=
                   map (\<lambda>r. if up_user_id r = pd_userId pd \<and> up_module_id r = pd_moduleId pd
                             then r\<lparr>up_last_accessed := clk 2\<rparr> else r) (user_progress s)\<rparr>)"
  using assms
  by (simp add: touchModuleProgress_def progress_row_def db_get_def no_faults_def
        update_last_accessed_def)


subsection \<open>Frame lemmas, for any fault pattern\<close>

lemma map_upd_proj:
  assumes "\<And>x. h (g x) = h x"
  shows "map h (map (\<lambda>r. if Q r then g r else r) xs) = map h xs"
  by (induction xs) (auto simp: assms)

lemma insert_user_progress_frame:
  assumes "insert_user_progress err u m t1 t2 s = Inr s'"
  shows "lesson_progress s' = lesson_progress s" and "modules s' = modules s"
    and "users s' = users s" and "certificates s' = certificates s"
    and "\<exists>new. map up_started_at (user_progress s') = map up_started_at (user_progress s) @ new"
  using assms by (auto simp: insert_user_progress_def Let_def split: if_splits)

lemma update_last_accessed_frame:
  assumes "update_last_accessed err t u m s = Inr s'"
  shows "lesson_progress s' = lesson_progress s" and "modules s' = modules s"
    and "users s' = users s" and "certificates s' = certificates s"
    and "map up_started_at (user_progress s') = map up_started_at (user_progress s)"
  using assms by (auto simp: update_last_accessed_def map_upd_proj split: if_splits)

lemma update_user_progress_frame:
  assumes "update_user_progress err p c d u m s = Inr s'"
  shows "lesson_progress s' = lesson_progress s" and "modules s' = modules s"
    and "users s' = users s" and "certificates s' = certificates s"
    and "map up_started_at (user_progress s') = map up_started_at (user_progress s)"
  using assms by (auto simp: update_user_progress_def map_upd_proj split: if_splits)

lemma update_lesson_progress_frame:
  assumes "update_lesson_progress err c t q a u m l s = Inr s'"
  shows "user_progress s' = user_progress s" and "modules s' = modules s"
    and "users s' = users s" and "certificates s' = certificates s"
  using assms by (auto simp: update_lesson_progress_def split: if_splits)

lemma insert_lesson_progress_frame:
  assumes "insert_lesson_progress err u m l c t q a s = Inr s'"
  shows "user_progress s' = user_progress s" and "modules s' = modules s"
    and "users s' = users s" and "certificates s' = certificates s"
  using assms by (auto simp: insert_lesson_progress_def Let_def split: if_splits)

lemma touch_frame:
  assumes "touchModuleProgress flt clk pd s = Inr s1"
  shows "lesson_progress s1 = lesson_progress s" and "modules s1 = modules s"
    and "users s1 = users s" and "certificates s1 = certificates s"
    and "\<exists>new. map up_started_at (user_progress s1) = map up_started_at (user_progress s) @ new"
  using assms
  by (auto simp: touchModuleProgress_def insert_user_progress_frame update_last_accessed_frame
        split: sum.splits option.splits)

lemma upsert_frame:
  assumes "upsertLessonProgress flt clk pd s = Inr s2"
  shows "user_progress s2 = user_progress s" and "modules s2 = modules s"
    and "users s2 = users s" and "certificates s2 = certificates s"
  using assms
  by (auto simp: upsertLessonProgress_def Let_def insert_lesson_progress_frame
        update_lesson_progress_frame split: sum.splits option.splits)

lemma body_frame:
  assumes "updateModuleCompletionStatus_body flt now u m s = Inr s'"
  shows "lesson_progress s' = lesson_progress s" and "modules s' = modules s"
    and "users s' = users s" and "certificates s' = certificates s"
    and "map up_started_at (user_progress s') = map up_started_at (user_progress s)"
  using assms
  by (auto simp: updateModuleCompletionStatus_body_def Let_def update_user_progress_frame
        split: if_splits option.splits sum.splits)

lemma recompute_frame:
  shows "lesson_progress (updateModuleCompletionStatus flt now u m s) = lesson_progress s"
    and "modules (updateModuleCompletionStatus flt now u m s) = modules s"
    and "users (updateModuleCompletionStatus flt now u m s) = users s"
    and "certificates (updateModuleCompletionStatus flt now u m s) = certificates s"
    and "map up_started_at (user_progress (updateModuleCompletionStatus flt now u m s))
           = map up_started_at (user_progress s)"
  by (auto simp: updateModuleCompletionStatus_def body_frame split: sum.splits)


lemma find_filter_not: "(\<And>x. Q x \<Longrightarrow> \<not> P x) \<Longrightarrow> find P (filter Q xs) = None"
  by (induction xs) auto

lemma filter_filter_not: "(\<And>x. Q x \<Longrightarrow> \<not> P x) \<Longrightarrow> filter P (filter Q xs) = []"
  by (induction xs) auto

lemma touch_total:
  "\<exists>s1. touchModuleProgress no_faults clk pd s = Inr s1"
proof (cases "progress_row s (pd_userId pd) (pd_moduleId pd)")
  case None then show ?thesis by (simp add: touch_None)
next
  case (Some r) then show ?thesis by (simp add: touch_Some)
qed

lemma upsert_None:
  assumes "lesson_row s (pd_userId pd) (pd_moduleId pd) (pd_lessonId pd) = None"
  shows "upsertLessonProgress no_faults clk pd s =
           Inr (s\<lparr>lesson_progress := lesson_progress s @
                   [\<lparr>lp_id = next_rowid (seq_lesson_progress s) (map lp_id (lesson_progress s)),
                     lp_user_id = pd_userId pd, lp_module_id = pd_moduleId pd,
                     lp_lesson_id = pd_lessonId pd, lp_completed = pd_completed pd,
                     lp_time_spent = pd_timeSpent pd, lp_quiz_score = pd_quizScore pd,
                     lp_quiz_attempts = 0,
                     lp_completed_at = (if pd_completed pd then Some (clk 4) else None)\<rparr>],
                 seq_lesson_progress :=
                   next_rowid (seq_lesson_progress s) (map lp_id (lesson_progress s))\<rparr>)"
  using assms list_ex_find_None[of _ "lesson_progress s"]
  by (simp add: upsertLessonProgress_def lesson_row_def db_get_def no_faults_def
        insert_lesson_progress_def Let_def)

lemma upsert_Some:
  assumes "lesson_row s (pd_userId pd) (pd_moduleId pd) (pd_lessonId pd) = Some existing"
  shows "upsertLessonProgress no_faults clk pd s =
           Inr (s\<lparr>lesson_progress :=
                   map (\<lambda>r. if lp_user_id r = pd_userId pd \<and> lp_module_id r = pd_moduleId pd \<and>
                                lp_lesson_id r = pd_lessonId pd
                             then r\<lparr>lp_completed := pd_completed pd,
                                    lp_time_spent := js_add (js_or0 (lp_time_spent existing)) (pd_timeSpent pd),
                                    lp_quiz_score := (if pd_quizScore pd \<noteq> None then pd_quizScore pd
                                                      else lp_quiz_score existing),
                                    lp_completed_at := (if pd_completed pd then Some (clk 3)
                                                        else lp_completed_at existing)\<rparr>
                             else r) (lesson_progress s)\<rparr>)"
  using assms
  by (simp add: upsertLessonProgress_def lesson_row_def db_get_def no_faults_def
        update_lesson_progress_def Let_def)

lemma upsert_total:
  "\<exists>s2. upsertLessonProgress no_faults clk pd s = Inr s2"
proof (cases "lesson_row s (pd_userId pd) (pd_moduleId pd) (pd_lessonId pd)")
  case None then show ?thesis by (simp add: upsert_None)
next
  case (Some r) then show ?thesis by (simp add: upsert_Some)
qed

lemma find_map_upd_same:
  assumes "\<And>x. P (g x) = P x"
  shows "find P (map (\<lambda>r. if P r then g r else r) xs) = map_option g (find P xs)"
  using assms by (induction xs) auto

lemma find_map_upd_other:
  assumes "\<And>x. P (g x) = P x" and "\<And>x. P x \<Longrightarrow> \<not> Q x"
  shows "find P (map (\<lambda>r. if Q r then g r else r) xs) = find P xs"
  using assms by (induction xs) auto

lemma filter_no_match: "\<not> list_ex P xs \<Longrightarrow> filter P xs = []"
  by (induction xs) auto

lemma find_key_sat: "find P xs = Some x \<Longrightarrow> P x"
  by (induction xs) (auto split: if_splits)

lemma upsert_stored_time:
  assumes "upsertLessonProgress no_faults clk pd s = Inr s2"
  shows "stored_time_spent s2 k =
           (if k = call_key pd then add_delta (stored_time_spent s k) (pd_timeSpent pd)
            else stored_time_spent s k)"
proof (cases "lesson_row s (pd_userId pd) (pd_moduleId pd) (pd_lessonId pd)")
  case None
  with assms have s2: "lesson_progress s2 = lesson_progress s @
                   [\<lparr>lp_id = next_rowid (seq_lesson_progress s) (map lp_id (lesson_progress s)),
                     lp_user_id = pd_userId pd, lp_module_id = pd_moduleId pd,
                     lp_lesson_id = pd_lessonId pd, lp_completed = pd_completed pd,
                     lp_time_spent = pd_timeSpent pd, lp_quiz_score = pd_quizScore pd,
                     lp_quiz_attempts = 0,
                     lp_completed_at = (if pd_completed pd then Some (clk 4) else None)\<rparr>]"
    by (auto simp: upsert_None)
  show ?thesis
    using None
    by (cases k) (auto simp: stored_time_spent_def lesson_row_def s2 find_append_new call_key_def
          add_delta_def split: option.splits)
next
  case (Some existing)
  with assms have s2: "lesson_progress s2 =
                   map (\<lambda>r. if lp_user_id r = pd_userId pd \<and> lp_module_id r = pd_moduleId pd \<and>
                                lp_lesson_id r = pd_lessonId pd
                             then r\<lparr>lp_completed := pd_completed pd,
                                    lp_time_spent := js_add (js_or0 (lp_time_spent existing)) (pd_timeSpent pd),
                                    lp_quiz_score := (if pd_quizScore pd \<noteq> None then pd_quizScore pd
                                                      else lp_quiz_score existing),
                                    lp_completed_at := (if pd_completed pd then Some (clk 3)
                                                        else lp_completed_at existing)\<rparr>
                             else r) (lesson_progress s)"
    by (auto simp: upsert_Some)
  obtain a b c where k: "k = (a, b, c)" by (cases k)
  show ?thesis
  proof (cases "k = call_key pd")
    case True
    then show ?thesis
      using Some
      by (simp add: k call_key_def stored_time_spent_def lesson_row_def s2 find_map_upd_same
            add_delta_def)
  next
    case False
    then have "find (\<lambda>r. lp_user_id r = a \<and> lp_module_id r = b \<and> lp_lesson_id r = c)
                 (lesson_progress s2)
               = find (\<lambda>r. lp_user_id r = a \<and> lp_module_id r = b \<and> lp_lesson_id r = c)
                 (lesson_progress s)"
      unfolding s2 by (intro find_map_upd_other) (auto simp: k call_key_def)
    then show ?thesis using False by (simp add: k stored_time_spent_def lesson_row_def)
  qed
qed

lemma step_stored_time:
  "stored_time_spent (fst (updateLessonProgress no_faults clk pd s)) k =
     (if k = call_key pd then add_delta (stored_time_spent s k) (pd_timeSpent pd)
      else stored_time_spent s k)"
proof -
  obtain s1 where t: "touchModuleProgress no_faults clk pd s = Inr s1"
    using touch_total by blast
  obtain s2 where u: "upsertLessonProgress no_faults clk pd s1 = Inr s2"
    using upsert_total by blast
  have l1: "lesson_progress s1 = lesson_progress s" by (rule touch_frame(1)[OF t])
  have st1: "stored_time_spent s1 = stored_time_spent s"
    by (rule ext) (simp add: stored_time_spent_def lesson_row_def l1)
  let ?s3 = "updateModuleCompletionStatus (\<lambda>i. no_faults (i + 4)) (clk 5)
               (pd_userId pd) (pd_moduleId pd) s2"
  have "lesson_progress (fst (updateLessonProgress no_faults clk pd s)) = lesson_progress ?s3"
    by (simp add: updateLessonProgress_def t u Let_def split: sum.splits option.splits)
  then have "stored_time_spent (fst (updateLessonProgress no_faults clk pd s)) k
               = stored_time_spent s2 k"
    by (simp add: stored_time_spent_def lesson_row_def recompute_frame)
  then show ?thesis using upsert_stored_time[OF u, of k] by (simp add: st1)
qed

text \<open>The stored time of a key after a run: the deltas of the calls for the key, folded
  with the rounded addition of the code.\<close>

lemma run_stored_time:
  "stored_time_spent (run_calls cs s) k = foldl add_delta (stored_time_spent s k) (deltas_for k cs)"
proof (induction cs arbitrary: s)
  case Nil
  then show ?case by (simp add: deltas_for_def)
next
  case (Cons c cs)
  show ?case
    using Cons.IH[of "fst (updateLessonProgress no_faults (fst c) (snd c) s)"]
    by (simp add: step_stored_time deltas_for_def)
qed

lemma add_delta_exact:
  assumes "stored_or0 st \<in> \<nat>" and "d \<in> \<nat>" and "stored_or0 st + d \<le> 2 ^ 53"
  shows "add_delta st d = Some (stored_or0 st + d)"
proof (cases st)
  case None
  then show ?thesis by (simp add: add_delta_def stored_or0_def)
next
  case (Some t)
  with assms show ?thesis
    by (simp add: add_delta_def stored_or0_def js_or0_def js_add_nat)
qed

lemma sum_list_Nats:
  fixes ds :: "rat list"
  assumes "\<forall>d\<in>set ds. d \<in> \<nat>"
  shows "sum_list ds \<in> \<nat>"
  using assms by (induction ds) (simp_all add: Nats_add)

lemma Nats_nonneg: "(x::rat) \<in> \<nat> \<Longrightarrow> 0 \<le> x"
  by (auto simp: Nats_def)

lemma fold_add_delta_exact:
  assumes "stored_or0 st \<in> \<nat>" and "\<forall>d\<in>set ds. d \<in> \<nat>"
    and "stored_or0 st + sum_list ds \<le> 2 ^ 53" and "ds \<noteq> []"
  shows "foldl add_delta st ds = Some (stored_or0 st + sum_list ds)"
  using assms
proof (induction ds arbitrary: st)
  case Nil
  then show ?case by simp
next
  case (Cons d ds)
  have d: "d \<in> \<nat>" and ds: "\<forall>x\<in>set ds. x \<in> \<nat>" using Cons.prems(2) by simp_all
  have nn: "0 \<le> sum_list ds" using sum_list_Nats[OF ds] by (rule Nats_nonneg)
  have b: "stored_or0 st + d \<le> 2 ^ 53" using Cons.prems(3) nn by simp
  have step: "add_delta st d = Some (stored_or0 st + d)"
    using Cons.prems(1) d b by (rule add_delta_exact)
  show ?case
  proof (cases "ds = []")
    case True
    then show ?thesis by (simp add: step)
  next
    case False
    have "foldl add_delta (Some (stored_or0 st + d)) ds
            = Some (stored_or0 (Some (stored_or0 st + d)) + sum_list ds)"
    proof (rule Cons.IH)
      show "stored_or0 (Some (stored_or0 st + d)) \<in> \<nat>"
        using Cons.prems(1) d by (simp add: stored_or0_def Nats_add)
      show "\<forall>x\<in>set ds. x \<in> \<nat>" by (rule ds)
      show "stored_or0 (Some (stored_or0 st + d)) + sum_list ds \<le> 2 ^ 53"
        using Cons.prems(3) by (simp add: stored_or0_def add.assoc)
      show "ds \<noteq> []" by (rule False)
    qed
    then show ?thesis by (simp add: step stored_or0_def add.assoc)
  qed
qed


subsection \<open>The recomputation without store errors\<close>

lemma shifted_no_faults: "(\<lambda>i. no_faults (i + k)) = no_faults"
  by (simp add: no_faults_def)

lemma recompute_no_faults:
  "updateModuleCompletionStatus no_faults now u m s =
     (case module_totals s m of
        None \<Rightarrow> s
      | Some (nl, nq) \<Rightarrow>
         if nl + nq = 0 then s
         else (case progress_row s u m of
                 None \<Rightarrow> s
               | Some cur \<Rightarrow>
                  let cl = completedLessonsCount s u m; cq = completedQuizzesCount s u m;
                      fin = (nl \<le> cl \<and> nq \<le> cq)
                  in s\<lparr>user_progress :=
                        map (set_aggregate u m (percentage (cl + cq) (nl + nq)) fin
                               (if fin \<and> \<not> up_completed cur then Some now
                                else up_completion_date cur))
                          (user_progress s)\<rparr>))"
  by (auto simp: updateModuleCompletionStatus_def updateModuleCompletionStatus_body_def
        module_totals_def progress_row_def completedLessonsCount_def completedQuizzesCount_def
        percentage_def set_aggregate_def db_get_def db_query_def no_faults_def
        update_user_progress_def Let_def
        split: option.splits sum.splits)


lemma set_aggregate_key [simp]:
  "up_user_id (set_aggregate u m p c d r) = up_user_id r"
  "up_module_id (set_aggregate u m p c d r) = up_module_id r"
  by (simp_all add: set_aggregate_def)

lemma find_map_key:
  assumes "\<And>x. P (g x) = P x"
  shows "find P (map g xs) = map_option g (find P xs)"
  using assms by (induction xs) auto

lemma progress_row_set_aggregate:
  "progress_row (s\<lparr>user_progress := map (set_aggregate u' m' p c d) (user_progress s)\<rparr>) u m
     = map_option (set_aggregate u' m' p c d) (progress_row s u m)"
  by (simp add: progress_row_def find_map_key)

lemma progress_row_key:
  "progress_row s u m = Some r \<Longrightarrow> up_user_id r = u \<and> up_module_id r = m"
  unfolding progress_row_def by (drule find_key_sat) simp

lemma set_aggregate_twice:
  "set_aggregate u m p c d (set_aggregate u m p c d r) = set_aggregate u m p c d r"
  by (simp add: set_aggregate_def)

lemma module_totals_user_progress [simp]:
  "module_totals (s\<lparr>user_progress := x\<rparr>) m = module_totals s m"
  by (simp add: module_totals_def)

lemma counts_user_progress [simp]:
  "completedLessonsCount (s\<lparr>user_progress := x\<rparr>) u m = completedLessonsCount s u m"
  "completedQuizzesCount (s\<lparr>user_progress := x\<rparr>) u m = completedQuizzesCount s u m"
  by (simp_all add: completedLessonsCount_def completedQuizzesCount_def)

lemma recompute_Some:
  assumes "module_totals s m = Some (nl, nq)" and "nl + nq \<noteq> 0"
    and "progress_row s u m = Some cur"
  shows "updateModuleCompletionStatus no_faults now u m s =
           s\<lparr>user_progress :=
               map (set_aggregate u m
                      (percentage (completedLessonsCount s u m + completedQuizzesCount s u m)
                         (nl + nq))
                      (nl \<le> completedLessonsCount s u m \<and> nq \<le> completedQuizzesCount s u m)
                      (if (nl \<le> completedLessonsCount s u m \<and> nq \<le> completedQuizzesCount s u m)
                          \<and> \<not> up_completed cur
                       then Some now else up_completion_date cur))
                 (user_progress s)\<rparr>"
  by (simp only: recompute_no_faults assms option.case prod.case if_False Let_def)

lemma recompute_idempotent:
  "updateModuleCompletionStatus no_faults now' u m (updateModuleCompletionStatus no_faults now u m s)
     = updateModuleCompletionStatus no_faults now u m s"
proof (cases "module_totals s m")
  case None
  then show ?thesis by (simp add: recompute_no_faults)
next
  case (Some tot)
  obtain nl nq where tot: "module_totals s m = Some (nl, nq)" using Some by (cases tot) simp
  show ?thesis
  proof (cases "nl + nq = 0")
    case True
    then show ?thesis using tot by (simp add: recompute_no_faults)
  next
    case False
    show ?thesis
    proof (cases "progress_row s u m")
      case None
      then show ?thesis using tot False by (simp add: recompute_no_faults)
    next
      case (Some cur)
      note k = progress_row_key[OF Some]
      define P where "P = percentage (completedLessonsCount s u m + completedQuizzesCount s u m)
                            (nl + nq)"
      define C where "C = (nl \<le> completedLessonsCount s u m \<and> nq \<le> completedQuizzesCount s u m)"
      define D where "D = (if C \<and> \<not> up_completed cur then Some now else up_completion_date cur)"
      define s' where "s' = s\<lparr>user_progress := map (set_aggregate u m P C D) (user_progress s)\<rparr>"
      have 1: "updateModuleCompletionStatus no_faults now u m s = s'"
        unfolding s'_def P_def C_def D_def by (rule recompute_Some[OF tot False Some])
      have tot': "module_totals s' m = Some (nl, nq)" using tot by (simp add: s'_def)
      have cur': "progress_row s' u m = Some (set_aggregate u m P C D cur)"
        using Some by (simp add: s'_def progress_row_set_aggregate)
      have cnt: "completedLessonsCount s' u m = completedLessonsCount s u m"
        "completedQuizzesCount s' u m = completedQuizzesCount s u m"
        by (simp_all add: s'_def)
      have up: "up_completed (set_aggregate u m P C D cur) = C"
        "up_completion_date (set_aggregate u m P C D cur) = D"
        using k by (simp_all add: set_aggregate_def)
      have "updateModuleCompletionStatus no_faults now' u m s' =
              s'\<lparr>user_progress := map (set_aggregate u m P C D) (user_progress s')\<rparr>"
        unfolding recompute_Some[OF tot' False cur'] cnt up P_def[symmetric] C_def[symmetric]
        by simp
      also have "\<dots> = s'"
        by (simp add: s'_def o_def set_aggregate_twice)
      finally show ?thesis by (simp add: 1)
    qed
  qed
qed



subsection \<open>Calls that keep the completions\<close>







lemma ulp_state:
  assumes "touchModuleProgress no_faults clk pd s = Inr s1"
    and "upsertLessonProgress no_faults clk pd s1 = Inr s2"
  shows "fst (updateLessonProgress no_faults clk pd s)
           = updateModuleCompletionStatus no_faults (clk 5) (pd_userId pd) (pd_moduleId pd) s2"
  using assms
  by (simp add: updateLessonProgress_def shifted_no_faults Let_def
        split: sum.splits option.splits)














subsection \<open>Certificate issuance\<close>

lemma fold_max_ge: "a \<le> fold max ids (a::nat)" "x \<in> set ids \<Longrightarrow> x \<le> fold max ids a"
proof -
  have "a \<le> fold max ids a \<and> (\<forall>x\<in>set ids. x \<le> fold max ids a)"
  proof (induction ids arbitrary: a)
    case Nil then show ?case by simp
  next
    case (Cons i ids)
    from Cons.IH[of "max i a"] show ?case by (auto simp: max_def split: if_splits)
  qed
  then show "a \<le> fold max ids a" "x \<in> set ids \<Longrightarrow> x \<le> fold max ids a" by blast+
qed

lemma next_rowid_fresh: "find (\<lambda>c. f c = next_rowid q (map f xs)) xs = None"
proof -
  have "f c \<noteq> next_rowid q (map f xs)" if "c \<in> set xs" for c
    using fold_max_ge(2)[of "f c" "map f xs" q] that by (simp add: next_rowid_def)
  then show ?thesis by (simp add: find_None_iff)
qed

lemma generate_no_faults:
  assumes user: "find (\<lambda>r. u_id r = u) (users s) = Some urow"
    and modl: "find (\<lambda>r. m_id r = m) (modules s) = Some mrow"
    and parse: "parseContent (m_content mrow) = Inr pc"
  shows "generateCertificate no_faults clk u m s =
     (if of_nat (length (completedRows s u m))
           < js_mul (of_nat (length (list_or_empty (lessons pc)))) dbl_0_8
      then (s, Failure Module_not_sufficiently_completed)
      else if list_ex (\<lambda>c. c_certificate_code c = certificateCode (clk 0) u m) (certificates s)
              \<or> list_ex (\<lambda>c. c_user_id c = u \<and> c_module_id c = m) (certificates s)
      then (s, Failure (Failed_to_generate_certificate SQLITE_CONSTRAINT))
      else (s\<lparr>certificates := certificates s @ [new_certificate clk urow mrow u m s],
              seq_certificates := c_id (new_certificate clk urow mrow u m s)\<rparr>,
            Success (new_certificate clk urow mrow u m s)))"
  using assms
  by (simp add: generateCertificate_def db_query_def db_get_def no_faults_def Let_def
        completedRows_def insert_certificate_def new_certificate_def find_append_new
        next_rowid_fresh)


text \<open>The threshold test of \<^verbatim>\<open>generateCertificate\<close> compares the number of all
  completed rows of the pair with 80% of the number of lessons.\<close>

lemma generate_threshold:
  assumes user: "find (\<lambda>r. u_id r = u) (users s) = Some urow"
    and modl: "find (\<lambda>r. m_id r = m) (modules s) = Some mrow"
    and parse: "parseContent (m_content mrow) = Inr pc"
    and nb: "length (list_or_empty (lessons pc)) < 2 ^ 50"
  shows "(snd (generateCertificate no_faults clk u m s) = Failure Module_not_sufficiently_completed)
           = (5 * length (completedRows s u m) < 4 * length (list_or_empty (lessons pc)))"
proof -
  have thr: "(of_nat (length (completedRows s u m))
               < js_mul (of_nat (length (list_or_empty (lessons pc)))) dbl_0_8)
             = (5 * length (completedRows s u m) < 4 * length (list_or_empty (lessons pc)))"
    by (rule threshold_exact[OF nb])
  show ?thesis
    unfolding generate_no_faults[OF user modl parse, of clk, unfolded thr] by simp
qed

lemma insert_certificate_existing:
  assumes "list_ex (\<lambda>c. c_user_id c = u \<and> c_module_id c = m) (certificates s)"
  shows "insert_certificate err u m code cdata s \<noteq> Inr x"
  using assms by (simp add: insert_certificate_def)

lemma generate_existing:
  assumes "list_ex (\<lambda>c. c_user_id c = u \<and> c_module_id c = m) (certificates s)"
  shows "fst (generateCertificate flt clk u m s) = s"
    and "snd (generateCertificate flt clk u m s) \<noteq> Success c"
  by (auto simp: generateCertificate_def Let_def insert_certificate_existing[OF assms]
        split: sum.splits option.splits prod.splits)

lemma insert_certificate_success:
  assumes "insert_certificate err u m code cdata s = Inr (s', rid)"
  shows "\<not> list_ex (\<lambda>c. c_user_id c = u \<and> c_module_id c = m) (certificates s)
       \<and> \<not> list_ex (\<lambda>c. c_certificate_code c = code) (certificates s)
       \<and> rid = next_rowid (seq_certificates s) (map c_id (certificates s))
       \<and> s' = s\<lparr>certificates := certificates s @
                       [\<lparr>c_id = rid, c_user_id = u, c_module_id = m,
                         c_certificate_code = code, c_certificate_data = cdata,
                         c_verified = True\<rparr>],
                     seq_certificates := rid\<rparr>"
  using assms by (auto simp: insert_certificate_def Let_def split: if_splits)

lemma generate_success:
  assumes "generateCertificate flt clk u m s = (s', Success cert)"
  shows "\<exists>urow mrow pc.
           find (\<lambda>r. u_id r = u) (users s) = Some urow \<and>
           find (\<lambda>r. m_id r = m) (modules s) = Some mrow \<and>
           parseContent (m_content mrow) = Inr pc \<and>
           \<not> of_nat (length (completedRows s u m))
               < js_mul (of_nat (length (list_or_empty (lessons pc)))) dbl_0_8 \<and>
           \<not> list_ex (\<lambda>c. c_user_id c = u \<and> c_module_id c = m) (certificates s) \<and>
           cert = new_certificate clk urow mrow u m s \<and>
           s' = s\<lparr>certificates := certificates s @ [cert], seq_certificates := c_id cert\<rparr>"
  using assms
  by (auto simp: generateCertificate_def Let_def db_get_def db_query_def completedRows_def
        new_certificate_def find_append_new next_rowid_fresh
        split: sum.splits option.splits prod.splits if_splits
        dest!: insert_certificate_success)



subsection \<open>Faults outside and inside the recomputation\<close>

lemma touch_no_faults_eq:
  "\<not> flt 0 \<Longrightarrow> \<not> flt 1 \<Longrightarrow> touchModuleProgress flt clk pd s = touchModuleProgress no_faults clk pd s"
  by (simp add: touchModuleProgress_def no_faults_def split: sum.splits option.splits)

lemma upsert_no_faults_eq:
  "\<not> flt 2 \<Longrightarrow> \<not> flt 3 \<Longrightarrow> upsertLessonProgress flt clk pd s = upsertLessonProgress no_faults clk pd s"
  by (simp add: upsertLessonProgress_def no_faults_def Let_def split: sum.splits option.splits)

lemma aggregate_fields_last_accessed [simp]:
  "aggregate_fields (r\<lparr>up_last_accessed := t\<rparr>) = aggregate_fields r"
  by (simp add: aggregate_fields_def)

lemma touch_aggregate_fields:
  assumes "touchModuleProgress flt clk pd s = Inr s1"
  shows "\<exists>new. map aggregate_fields (user_progress s1) = map aggregate_fields (user_progress s) @ new"
proof (cases "db_get (flt 0) (\<lambda>r. up_user_id r = pd_userId pd \<and> up_module_id r = pd_moduleId pd)
                (user_progress s)")
  case (Inl e)
  then show ?thesis using assms by (simp add: touchModuleProgress_def)
next
  case (Inr found)
  show ?thesis
  proof (cases found)
    case None
    then have "insert_user_progress (flt 1) (pd_userId pd) (pd_moduleId pd) (clk 0) (clk 1) s
                 = Inr s1"
      using assms Inr by (simp add: touchModuleProgress_def)
    then show ?thesis
      by (auto simp: insert_user_progress_def Let_def split: if_splits)
  next
    case (Some r)
    then have "update_last_accessed (flt 1) (clk 2) (pd_userId pd) (pd_moduleId pd) s = Inr s1"
      using assms Inr by (simp add: touchModuleProgress_def)
    then have "user_progress s1 =
                 map (\<lambda>r. if up_user_id r = pd_userId pd \<and> up_module_id r = pd_moduleId pd
                           then r\<lparr>up_last_accessed := clk 2\<rparr> else r) (user_progress s)"
      by (auto simp: update_last_accessed_def split: if_splits)
    then have "map aggregate_fields (user_progress s1) = map aggregate_fields (user_progress s)"
      by (simp only: map_upd_proj[where h = aggregate_fields, OF aggregate_fields_last_accessed])
    then show ?thesis by simp
  qed
qed

lemma upsert_row:
  assumes "upsertLessonProgress no_faults clk pd s = Inr s2"
  shows "\<exists>row. lesson_row s2 (pd_userId pd) (pd_moduleId pd) (pd_lessonId pd) = Some row \<and>
           lp_completed row = pd_completed pd \<and>
           lp_time_spent row =
             (case lesson_row s (pd_userId pd) (pd_moduleId pd) (pd_lessonId pd) of
                None \<Rightarrow> pd_timeSpent pd
              | Some existing \<Rightarrow> js_add (js_or0 (lp_time_spent existing)) (pd_timeSpent pd))"
proof (cases "lesson_row s (pd_userId pd) (pd_moduleId pd) (pd_lessonId pd)")
  case None
  from assms[unfolded upsert_None[OF None]] have
    "lesson_progress s2 = lesson_progress s @
                   [\<lparr>lp_id = next_rowid (seq_lesson_progress s) (map lp_id (lesson_progress s)),
                     lp_user_id = pd_userId pd, lp_module_id = pd_moduleId pd,
                     lp_lesson_id = pd_lessonId pd, lp_completed = pd_completed pd,
                     lp_time_spent = pd_timeSpent pd, lp_quiz_score = pd_quizScore pd,
                     lp_quiz_attempts = 0,
                     lp_completed_at = (if pd_completed pd then Some (clk 4) else None)\<rparr>]"
    by auto
  then show ?thesis using None by (simp add: lesson_row_def find_append_new)
next
  case (Some existing)
  from assms[unfolded upsert_Some[OF Some]] have
    "lesson_progress s2 =
                   map (\<lambda>r. if lp_user_id r = pd_userId pd \<and> lp_module_id r = pd_moduleId pd \<and>
                                lp_lesson_id r = pd_lessonId pd
                             then r\<lparr>lp_completed := pd_completed pd,
                                    lp_time_spent := js_add (js_or0 (lp_time_spent existing)) (pd_timeSpent pd),
                                    lp_quiz_score := (if pd_quizScore pd \<noteq> None then pd_quizScore pd
                                                      else lp_quiz_score existing),
                                    lp_completed_at := (if pd_completed pd then Some (clk 3)
                                                        else lp_completed_at existing)\<rparr>
                             else r) (lesson_progress s)"
    by auto
  then show ?thesis using Some
    by (simp add: lesson_row_def find_map_upd_same js_or0_def)
qed



subsection \<open>Passing scores are not read\<close>

lemma set_passingScores_fields [simp]:
  "users (set_passingScores f s) = users s"
  "user_progress (set_passingScores f s) = user_progress s"
  "lesson_progress (set_passingScores f s) = lesson_progress s"
  "certificates (set_passingScores f s) = certificates s"
  "seq_user_progress (set_passingScores f s) = seq_user_progress s"
  "seq_lesson_progress (set_passingScores f s) = seq_lesson_progress s"
  "seq_certificates (set_passingScores f s) = seq_certificates s"
  by (simp_all add: set_passingScores_def)

lemma set_passingScores_update [simp]:
  "set_passingScores f (s\<lparr>user_progress := x\<rparr>) = (set_passingScores f s)\<lparr>user_progress := x\<rparr>"
  "set_passingScores f (s\<lparr>lesson_progress := y\<rparr>) = (set_passingScores f s)\<lparr>lesson_progress := y\<rparr>"
  "set_passingScores f (s\<lparr>seq_user_progress := n\<rparr>) = (set_passingScores f s)\<lparr>seq_user_progress := n\<rparr>"
  "set_passingScores f (s\<lparr>seq_lesson_progress := n\<rparr>) = (set_passingScores f s)\<lparr>seq_lesson_progress := n\<rparr>"
  by (simp_all add: set_passingScores_def)

lemma touch_rescored:
  "touchModuleProgress flt clk pd (set_passingScores f s)
     = map_sum id (set_passingScores f) (touchModuleProgress flt clk pd s)"
  by (simp add: touchModuleProgress_def db_get_def insert_user_progress_def
        update_last_accessed_def Let_def split: option.splits)

lemma upsert_rescored:
  "upsertLessonProgress flt clk pd (set_passingScores f s)
     = map_sum id (set_passingScores f) (upsertLessonProgress flt clk pd s)"
  by (simp add: upsertLessonProgress_def db_get_def insert_lesson_progress_def
        update_lesson_progress_def Let_def split: option.splits)

lemma parse_rescored:
  "parseContent (rescore_content f c)
     = map_sum id (\<lambda>d. d\<lparr>quizzes := map_option (map (\<lambda>q. q\<lparr>q_passingScore := f q\<rparr>)) (quizzes d)\<rparr>)
         (parseContent c)"
  by (cases c) (simp_all add: parseContent_def rescore_content_def)

lemma find_module_rescored:
  "find (\<lambda>r. m_id r = m) (modules (set_passingScores f s))
     = map_option (\<lambda>r. r\<lparr>m_content := rescore_content f (m_content r)\<rparr>)
         (find (\<lambda>r. m_id r = m) (modules s))"
  by (simp add: set_passingScores_def find_map_key)

lemma length_or0_rescored [simp]:
  "length_or0 (map_option (map g) xs) = length_or0 xs"
  by (cases xs) (simp_all add: length_or0_def)

lemma update_user_progress_rescored:
  "update_user_progress err p c d u m (set_passingScores f s)
     = map_sum id (set_passingScores f) (update_user_progress err p c d u m s)"
  by (simp add: update_user_progress_def)

lemma body_rescored:
  "updateModuleCompletionStatus_body flt now u m (set_passingScores f s)
     = map_sum id (set_passingScores f) (updateModuleCompletionStatus_body flt now u m s)"
proof (cases "flt 0")
  case True
  then show ?thesis by (simp add: updateModuleCompletionStatus_body_def db_get_def)
next
  case f0: False
  show ?thesis
  proof (cases "find (\<lambda>r. m_id r = m) (modules s)")
    case None
    then show ?thesis
      using f0 by (simp add: updateModuleCompletionStatus_body_def db_get_def find_module_rescored)
  next
    case (Some mrow)
    show ?thesis
    proof (cases "parseContent (m_content mrow)")
      case (Inl e)
      then show ?thesis
        using f0 Some
        by (simp add: updateModuleCompletionStatus_body_def db_get_def find_module_rescored
              parse_rescored)
    next
      case (Inr pc)
      show ?thesis
        using f0 Some Inr
        by (simp add: updateModuleCompletionStatus_body_def db_get_def db_query_def
              find_module_rescored parse_rescored update_user_progress_rescored Let_def
              split: option.splits)
    qed
  qed
qed

lemma recompute_rescored:
  "updateModuleCompletionStatus flt now u m (set_passingScores f s)
     = set_passingScores f (updateModuleCompletionStatus flt now u m s)"
  by (simp add: updateModuleCompletionStatus_def body_rescored split: sum.splits)

lemma update_unfold:
  assumes "touchModuleProgress flt clk pd s = Inr s1"
    and "upsertLessonProgress flt clk pd s1 = Inr s2"
  shows "updateLessonProgress flt clk pd s =
           (updateModuleCompletionStatus (\<lambda>i. flt (i + 4)) (clk 5) (pd_userId pd) (pd_moduleId pd) s2,
            case db_get (flt 9)
                   (\<lambda>r. lp_user_id r = pd_userId pd \<and> lp_module_id r = pd_moduleId pd \<and>
                         lp_lesson_id r = pd_lessonId pd)
                   (lesson_progress s2) of
              Inl e \<Rightarrow> Failure (Failed_to_update_progress e)
            | Inr None \<Rightarrow> Failure Failed_to_retrieve_updated_progress
            | Inr (Some updatedProgress) \<Rightarrow> Success updatedProgress)"
  using assms
  by (simp add: updateLessonProgress_def Let_def recompute_frame split: sum.splits option.splits)

lemma update_rescored:
  "updateLessonProgress flt clk pd (set_passingScores f s)
     = (set_passingScores f (fst (updateLessonProgress flt clk pd s)),
        snd (updateLessonProgress flt clk pd s))"
proof (cases "touchModuleProgress flt clk pd s")
  case (Inl e)
  then show ?thesis by (simp add: updateLessonProgress_def touch_rescored)
next
  case s1: (Inr s1)
  have s1': "touchModuleProgress flt clk pd (set_passingScores f s) = Inr (set_passingScores f s1)"
    by (simp add: touch_rescored s1)
  show ?thesis
  proof (cases "upsertLessonProgress flt clk pd s1")
    case (Inl e)
    then show ?thesis using s1
      by (simp add: updateLessonProgress_def touch_rescored upsert_rescored)
  next
    case s2: (Inr s2)
    have s2': "upsertLessonProgress flt clk pd (set_passingScores f s1)
                 = Inr (set_passingScores f s2)"
      by (simp add: upsert_rescored s2)
    show ?thesis
      unfolding update_unfold[OF s1 s2] update_unfold[OF s1' s2'] recompute_rescored
      by simp
  qed
qed


subsection \<open>The bookkeeping columns of ModuleProgress\<close>

lemma bookkeeping_set_aggregate:
  "bookkeeping_fields (set_aggregate u m p c d r) = bookkeeping_fields r"
  by (simp add: bookkeeping_fields_def set_aggregate_def)

lemma update_user_progress_bookkeeping:
  assumes "update_user_progress err p c d u m s = Inr s'"
  shows "map bookkeeping_fields (user_progress s') = map bookkeeping_fields (user_progress s)"
  using assms
  by (auto simp: update_user_progress_def bookkeeping_fields_def map_upd_proj split: if_splits)

lemma body_bookkeeping:
  assumes "updateModuleCompletionStatus_body flt now u m s = Inr s'"
  shows "map bookkeeping_fields (user_progress s') = map bookkeeping_fields (user_progress s)"
  using assms
  by (auto simp: updateModuleCompletionStatus_body_def Let_def update_user_progress_bookkeeping
        split: if_splits option.splits sum.splits)

lemma recompute_bookkeeping:
  "map bookkeeping_fields (user_progress (updateModuleCompletionStatus flt now u m s))
     = map bookkeeping_fields (user_progress s)"
  by (auto simp: updateModuleCompletionStatus_def body_bookkeeping split: sum.splits)

lemma find_map_proj:
  assumes "map h xs = map h ys" and "\<And>r. P r = Q (h r)"
  shows "map_option h (find P xs) = find Q (map h ys)"
  using assms(1)
proof (induction xs arbitrary: ys)
  case Nil
  then show ?case by simp
next
  case (Cons x xs)
  then obtain y ys' where ys: "ys = y # ys'" and h: "h x = h y" and t: "map h xs = map h ys'"
    by (cases ys) auto
  show ?case using Cons.IH[OF t] h by (simp add: ys assms(2))
qed

lemma ulp_steps:
  "\<exists>s1 s2. touchModuleProgress no_faults clk pd s = Inr s1 \<and>
           upsertLessonProgress no_faults clk pd s1 = Inr s2 \<and>
           user_progress s2 = user_progress s1 \<and>
           fst (updateLessonProgress no_faults clk pd s)
             = updateModuleCompletionStatus no_faults (clk 5) (pd_userId pd) (pd_moduleId pd) s2"
proof -
  obtain s1 where t: "touchModuleProgress no_faults clk pd s = Inr s1"
    using touch_total by blast
  obtain s2 where u: "upsertLessonProgress no_faults clk pd s1 = Inr s2"
    using upsert_total by blast
  show ?thesis using t u ulp_state[OF t u] upsert_frame(1)[OF u] by blast
qed

lemma ulp_bookkeeping:
  assumes "touchModuleProgress no_faults clk pd s = Inr s1"
  shows "map bookkeeping_fields (user_progress (fst (updateLessonProgress no_faults clk pd s)))
           = map bookkeeping_fields (user_progress s1)"
proof -
  obtain s2 where u: "upsertLessonProgress no_faults clk pd s1 = Inr s2"
    using upsert_total by blast
  show ?thesis
    unfolding ulp_state[OF assms u] recompute_bookkeeping upsert_frame(1)[OF u] ..
qed

lemma ulp_progress_row_bookkeeping:
  assumes "touchModuleProgress no_faults clk pd s = Inr s1"
  shows "map_option bookkeeping_fields
           (progress_row (fst (updateLessonProgress no_faults clk pd s)) u m)
         = map_option bookkeeping_fields (progress_row s1 u m)"
proof -
  let ?Q = "\<lambda>b. fst (snd b) = u \<and> fst (snd (snd b)) = m"
  have q: "(up_user_id r = u \<and> up_module_id r = m) = ?Q (bookkeeping_fields r)" for r
    by (simp add: bookkeeping_fields_def)
  have "map_option bookkeeping_fields
           (progress_row (fst (updateLessonProgress no_faults clk pd s)) u m)
        = find ?Q (map bookkeeping_fields (user_progress s1))"
    unfolding progress_row_def
    by (rule find_map_proj[where Q = ?Q and h = bookkeeping_fields,
          OF ulp_bookkeeping[OF assms] q])
  also have "\<dots> = map_option bookkeeping_fields (progress_row s1 u m)"
    unfolding progress_row_def
    by (rule find_map_proj[where Q = ?Q and h = bookkeeping_fields, OF refl q, symmetric])
  finally show ?thesis .
qed

lemma ulp_fresh:
  assumes n: "progress_row s (pd_userId pd) (pd_moduleId pd) = None"
  shows "map bookkeeping_fields (user_progress (fst (updateLessonProgress no_faults clk pd s)))
           = map bookkeeping_fields (user_progress s) @
               [(next_rowid (seq_user_progress s) (map up_id (user_progress s)),
                 pd_userId pd, pd_moduleId pd, Some (clk 0), 0, clk 1)]"
    and "\<exists>row. progress_row (fst (updateLessonProgress no_faults clk pd s))
                 (pd_userId pd) (pd_moduleId pd) = Some row \<and>
               up_started_at row = Some (clk 0) \<and> up_last_accessed row = clk 1"
proof -
  let ?new = "\<lparr>up_id = next_rowid (seq_user_progress s) (map up_id (user_progress s)),
                     up_user_id = pd_userId pd, up_module_id = pd_moduleId pd,
                     up_progress_percentage = 0, up_completed = False,
                     up_started_at = Some (clk 0), up_completion_date = None,
                     up_total_time_spent = 0, up_last_accessed = clk 1\<rparr>"
  let ?s1 = "s\<lparr>user_progress := user_progress s @ [?new],
                 seq_user_progress := next_rowid (seq_user_progress s) (map up_id (user_progress s))\<rparr>"
  have t: "touchModuleProgress no_faults clk pd s = Inr ?s1" by (rule touch_None[OF n])
  show "map bookkeeping_fields (user_progress (fst (updateLessonProgress no_faults clk pd s)))
           = map bookkeeping_fields (user_progress s) @
               [(next_rowid (seq_user_progress s) (map up_id (user_progress s)),
                 pd_userId pd, pd_moduleId pd, Some (clk 0), 0, clk 1)]"
    unfolding ulp_bookkeeping[OF t] by (simp add: bookkeeping_fields_def)
  have r1: "progress_row ?s1 (pd_userId pd) (pd_moduleId pd) = Some ?new"
    using n by (simp add: progress_row_def find_append_new)
  have "map_option bookkeeping_fields
          (progress_row (fst (updateLessonProgress no_faults clk pd s)) (pd_userId pd) (pd_moduleId pd))
        = Some (bookkeeping_fields ?new)"
    unfolding ulp_progress_row_bookkeeping[OF t] r1 by simp
  then show "\<exists>row. progress_row (fst (updateLessonProgress no_faults clk pd s))
                 (pd_userId pd) (pd_moduleId pd) = Some row \<and>
               up_started_at row = Some (clk 0) \<and> up_last_accessed row = clk 1"
    by (auto simp: bookkeeping_fields_def)
qed

lemma ulp_existing:
  assumes r: "progress_row s (pd_userId pd) (pd_moduleId pd) = Some r"
  shows "map bookkeeping_fields (user_progress (fst (updateLessonProgress no_faults clk pd s)))
           = map (\<lambda>x. bookkeeping_fields
                         (if up_user_id x = pd_userId pd \<and> up_module_id x = pd_moduleId pd
                          then x\<lparr>up_last_accessed := clk 2\<rparr> else x)) (user_progress s)"
    and "\<exists>row. progress_row (fst (updateLessonProgress no_faults clk pd s))
                 (pd_userId pd) (pd_moduleId pd) = Some row \<and>
               up_id row = up_id r \<and> up_started_at row = up_started_at r \<and>
               up_total_time_spent row = up_total_time_spent r \<and> up_last_accessed row = clk 2"
proof -
  let ?f = "\<lambda>x. if up_user_id x = pd_userId pd \<and> up_module_id x = pd_moduleId pd
                 then x\<lparr>up_last_accessed := clk 2\<rparr> else x"
  let ?s1 = "s\<lparr>user_progress := map ?f (user_progress s)\<rparr>"
  have t: "touchModuleProgress no_faults clk pd s = Inr ?s1" by (rule touch_Some[OF r])
  show "map bookkeeping_fields (user_progress (fst (updateLessonProgress no_faults clk pd s)))
           = map (\<lambda>x. bookkeeping_fields (?f x)) (user_progress s)"
    unfolding ulp_bookkeeping[OF t] by simp
  have r1: "progress_row ?s1 (pd_userId pd) (pd_moduleId pd) = Some (r\<lparr>up_last_accessed := clk 2\<rparr>)"
    using r by (simp add: progress_row_def find_map_upd_same)
  have "map_option bookkeeping_fields
          (progress_row (fst (updateLessonProgress no_faults clk pd s)) (pd_userId pd) (pd_moduleId pd))
        = Some (bookkeeping_fields (r\<lparr>up_last_accessed := clk 2\<rparr>))"
    unfolding ulp_progress_row_bookkeeping[OF t] r1 by simp
  then show "\<exists>row. progress_row (fst (updateLessonProgress no_faults clk pd s))
                 (pd_userId pd) (pd_moduleId pd) = Some row \<and>
               up_id row = up_id r \<and> up_started_at row = up_started_at r \<and>
               up_total_time_spent row = up_total_time_spent r \<and> up_last_accessed row = clk 2"
    by (auto simp: bookkeeping_fields_def)
qed


section \<open>Claims\<close>

subsection \<open>C1: time spent accumulates\<close>

text \<open>
  C1, as stated, fails on the code: the stored time is a JavaScript number and
  \<^verbatim>\<open>(existing.time_spent || 0) + progressData.timeSpent\<close> is a binary64 addition, so
  from \<open>2\<^sup>5\<^sup>3\<close> on a delta can be lost. Three calls for \<^verbatim>\<open>lesson-1\<close> with the positive
  deltas 9007199254740992, 1 and 1: the deltas sum to 9007199254740994, the stored
  \<^verbatim>\<open>time_spent\<close> is 9007199254740992.
\<close>

theorem time_spent_rounded_counterexample:
  "stored_time_spent
     (run_calls [(clock_at 10, demo_call ''lesson-1'' False 9007199254740992 None),
                 (clock_at 20, demo_call ''lesson-1'' False 1 None),
                 (clock_at 30, demo_call ''lesson-1'' True 1 None)] demo_db)
     (1, 1, ''lesson-1'') = Some 9007199254740992
   \<and> sum_list (deltas_for (1, 1, ''lesson-1'')
                 [(clock_at 10, demo_call ''lesson-1'' False 9007199254740992 None),
                  (clock_at 20, demo_call ''lesson-1'' False 1 None),
                  (clock_at 30, demo_call ''lesson-1'' True 1 None)]) = 9007199254740994"
  by code_simp

text \<open>
  C1, amended. Run any sequence of \<^verbatim>\<open>updateLessonProgress\<close> calls, free of store
  errors; calls for other keys may be interleaved with those for the key \<open>k\<close> = (user,
  module, lesson-or-quiz id). The stored \<^verbatim>\<open>time_spent\<close> of \<open>k\<close> after the run is obtained
  from the one before by going through the deltas of the calls for \<open>k\<close> in order: the
  delta of a call for a key without a row is stored as it is, the delta of a later call
  is added to the stored number by the addition of binary64, never replacing it. If
  there is at least one call for \<open>k\<close>, the time stored for \<open>k\<close> before the run (nothing,
  if \<open>k\<close> has no row) and the deltas of the calls for \<open>k\<close> are whole numbers, none
  negative, and what was stored plus the sum of these deltas is at most \<open>2\<^sup>5\<^sup>3\<close>, then
  no addition rounds: the stored \<^verbatim>\<open>time_spent\<close> of \<open>k\<close> after the run is what was stored
  before plus the sum of the deltas of the calls for \<open>k\<close>.
\<close>

theorem time_spent_accumulates:
  "stored_time_spent (run_calls cs s) k
     = foldl add_delta (stored_time_spent s k) (deltas_for k cs)
   \<and> (list_ex (\<lambda>c. call_key (snd c) = k) cs
        \<and> stored_or0 (stored_time_spent s k) \<in> \<nat>
        \<and> (\<forall>d\<in>set (deltas_for k cs). d \<in> \<nat>)
        \<and> stored_or0 (stored_time_spent s k) + sum_list (deltas_for k cs) \<le> 2 ^ 53
      \<longrightarrow> stored_time_spent (run_calls cs s) k =
            Some (stored_or0 (stored_time_spent s k) + sum_list (deltas_for k cs)))"
proof (intro conjI impI)
  show "stored_time_spent (run_calls cs s) k
          = foldl add_delta (stored_time_spent s k) (deltas_for k cs)"
    by (rule run_stored_time)
next
  assume a: "list_ex (\<lambda>c. call_key (snd c) = k) cs
        \<and> stored_or0 (stored_time_spent s k) \<in> \<nat>
        \<and> (\<forall>d\<in>set (deltas_for k cs). d \<in> \<nat>)
        \<and> stored_or0 (stored_time_spent s k) + sum_list (deltas_for k cs) \<le> 2 ^ 53"
  then have "deltas_for k cs \<noteq> []"
    by (auto simp: deltas_for_def list_ex_iff filter_empty_conv)
  with a show "stored_time_spent (run_calls cs s) k =
            Some (stored_or0 (stored_time_spent s k) + sum_list (deltas_for k cs))"
    unfolding run_stored_time by (intro fold_add_delta_exact) simp_all
qed

theorem time_spent_accumulates_witness:
  "stored_time_spent demo_db (1, 1, ''lesson-1'') = None
   \<and> deltas_for (1, 1, ''lesson-1'')
        [(clock_at 10, demo_call ''lesson-1'' False 60 None),
         (clock_at 20, demo_call ''lesson-2'' True 90 None),
         (clock_at 30, demo_call ''lesson-1'' True 30 None)] = [60, 30]
   \<and> stored_time_spent
        (run_calls [(clock_at 10, demo_call ''lesson-1'' False 60 None),
                    (clock_at 20, demo_call ''lesson-2'' True 90 None),
                    (clock_at 30, demo_call ''lesson-1'' True 30 None)] demo_db)
        (1, 1, ''lesson-1'') = Some 90"
proof -
  let ?cs = "[(clock_at 10, demo_call ''lesson-1'' False 60 None),
              (clock_at 20, demo_call ''lesson-2'' True 90 None),
              (clock_at 30, demo_call ''lesson-1'' True 30 None)]"
  have h0: "stored_time_spent demo_db (1, 1, ''lesson-1'') = None"
    by code_simp
  have h1: "list_ex (\<lambda>c. call_key (snd c) = (1, 1, ''lesson-1'')) ?cs"
    by code_simp
  have ds: "deltas_for (1, 1, ''lesson-1'') ?cs = [60, 30]"
    by code_simp
  have h2: "stored_or0 (stored_time_spent demo_db (1, 1, ''lesson-1'')) \<in> \<nat>"
    unfolding h0 stored_or0_def by simp
  have h3: "\<forall>d\<in>set (deltas_for (1, 1, ''lesson-1'') ?cs). d \<in> \<nat>"
    unfolding ds by simp
  have h4: "stored_or0 (stored_time_spent demo_db (1, 1, ''lesson-1''))
              + sum_list (deltas_for (1, 1, ''lesson-1'') ?cs) \<le> 2 ^ 53"
    unfolding h0 ds stored_or0_def by simp
  have "stored_time_spent (run_calls ?cs demo_db) (1, 1, ''lesson-1'')
          = Some (stored_or0 (stored_time_spent demo_db (1, 1, ''lesson-1''))
                  + sum_list (deltas_for (1, 1, ''lesson-1'') ?cs))"
    using time_spent_accumulates[of ?cs demo_db "(1, 1, ''lesson-1'')", THEN conjunct2]
      h1 h2 h3 h4
    by blast
  then have "stored_time_spent (run_calls ?cs demo_db) (1, 1, ''lesson-1'') = Some 90"
    unfolding h0 ds stored_or0_def by simp
  then show ?thesis using h0 ds by (intro conjI)
qed


subsection \<open>C2: the progress percentage\<close>

text \<open>
  C2, as stated, fails on the code in two ways. The count of completed rows is taken
  by id prefix over all rows of the pair, whatever the module's content lists, so it
  can exceed the number of items: with a one-lesson module and completed rows
  \<^verbatim>\<open>lesson-1\<close> and \<^verbatim>\<open>lesson-2\<close> the stored percentage is 200. And the percentage is
  computed in doubles as \<^verbatim>\<open>(c / t) * 100\<close>: in a module of forty lessons, completing
  the twenty-third stores 57, because the product is just below 57.5, where
  100 * 23 / 40 rounded is 58.
\<close>

theorem progress_percentage_counterexample:
  "module_totals tiny_db 1 = Some (1, 0)
   \<and> map_option up_progress_percentage
        (progress_row
           (run_calls [(clock_at 10, demo_call ''lesson-1'' True 0 None),
                       (clock_at 20, demo_call ''lesson-2'' True 0 None)] tiny_db) 1 1) = Some 200
   \<and> module_totals forty_db 1 = Some (40, 0)
   \<and> completedLessonsCount
        (fst (updateLessonProgress no_faults (clock_at 10)
                (demo_call ''lesson-23'' True 0 None) forty_db)) 1 1 = 23
   \<and> map_option up_progress_percentage
        (progress_row
           (fst (updateLessonProgress no_faults (clock_at 10)
                   (demo_call ''lesson-23'' True 0 None) forty_db)) 1 1) = Some 57
   \<and> \<lfloor>100 * of_nat 23 / of_nat 40 + (1/2 :: rat)\<rfloor> = 58"
  by code_simp

text \<open>
  C2, amended. Let a recomputation run without store error for a pair that has a
  ModuleProgress row, on a module whose content parses and has \<open>t > 0\<close> items, and
  let \<open>c\<close> be the number of completed lesson rows plus completed quiz rows with a
  score. Then the persisted percentage is \<^verbatim>\<open>Math.round((c / t) * 100)\<close> in double
  arithmetic; it equals 100 c / t rounded half up whenever 100 c / t is not exactly
  halfway between two integers (\<open>c < 2\<^sup>4\<^sup>3\<close>); it lies in [0, 100] whenever
  \<open>c \<le> t\<close>; and recomputing again, at any later time, leaves the store as it is.
\<close>

theorem progress_percentage_value:
  assumes tot: "module_totals s m = Some (nl, nq)" and t: "t = nl + nq" and pos: "0 < t"
    and c: "c = completedLessonsCount s u m + completedQuizzesCount s u m"
    and cur: "progress_row s u m = Some cur"
  shows "\<exists>row. progress_row (updateModuleCompletionStatus no_faults now u m s) u m = Some row
           \<and> up_progress_percentage row = percentage c t
           \<and> (c < 2 ^ 43 \<and> (200 * c) mod (2 * t) \<noteq> t
                \<longrightarrow> up_progress_percentage row = \<lfloor>100 * of_nat c / of_nat t + (1/2 :: rat)\<rfloor>)
           \<and> (c \<le> t \<longrightarrow> 0 \<le> up_progress_percentage row \<and> up_progress_percentage row \<le> 100)
           \<and> updateModuleCompletionStatus no_faults now' u m
                (updateModuleCompletionStatus no_faults now u m s)
              = updateModuleCompletionStatus no_faults now u m s"
proof -
  note k = progress_row_key[OF cur]
  have pr: "map_option up_progress_percentage
              (progress_row (updateModuleCompletionStatus no_faults now u m s) u m)
            = Some (percentage c t)"
  proof -
    have ne: "nl + nq \<noteq> 0" using t pos by simp
    show ?thesis
      unfolding recompute_Some[OF tot ne cur] progress_row_set_aggregate cur
      using k by (simp add: set_aggregate_def t c)
  qed
  then obtain row where row: "progress_row (updateModuleCompletionStatus no_faults now u m s) u m
      = Some row" and pct: "up_progress_percentage row = percentage c t"
    by auto
  have ex: "c < 2 ^ 43 \<and> (200 * c) mod (2 * t) \<noteq> t
              \<longrightarrow> percentage c t = \<lfloor>100 * of_nat c / of_nat t + (1/2 :: rat)\<rfloor>"
    using percent_exact[OF pos] by (simp add: percentage_def)
  have rg: "c \<le> t \<longrightarrow> 0 \<le> percentage c t \<and> percentage c t \<le> 100"
  proof
    assume "c \<le> t"
    then have "(of_nat c :: rat) \<le> of_nat t" by (simp only: of_nat_le_iff)
    then have "0 \<le> (of_nat c / of_nat t :: rat)" and "(of_nat c / of_nat t :: rat) \<le> 1"
      using pos by simp_all
    from percent_range[OF this] show "0 \<le> percentage c t \<and> percentage c t \<le> 100"
      by (simp add: percentage_def js_div_def)
  qed
  show ?thesis
    using row pct ex rg recompute_idempotent[of now' u m now s] by simp
qed

theorem progress_percentage_value_witness:
  "module_totals demo_started 1 = Some (3, 1)
   \<and> progress_row demo_started 1 1 \<noteq> None
   \<and> completedLessonsCount demo_started 1 1 + completedQuizzesCount demo_started 1 1 = 1
   \<and> (1::nat) < 2 ^ 43 \<and> (200 * 1) mod (2 * 4) \<noteq> (4::nat) \<and> (1::nat) \<le> 4
   \<and> (\<exists>row. progress_row (updateModuleCompletionStatus no_faults 50 1 1 demo_started) 1 1
                = Some row \<and> up_progress_percentage row = 25)
   \<and> updateModuleCompletionStatus no_faults 60 1 1
        (updateModuleCompletionStatus no_faults 50 1 1 demo_started)
      = updateModuleCompletionStatus no_faults 50 1 1 demo_started"
proof -
  have tot: "module_totals demo_started 1 = Some (3, 1)" by code_simp
  have t: "(4::nat) = 3 + 1" and pos: "(0::nat) < 4" by simp_all
  have c: "1 = completedLessonsCount demo_started 1 1 + completedQuizzesCount demo_started 1 1"
    by code_simp
  have ne: "progress_row demo_started 1 1 \<noteq> None" by code_simp
  then obtain cur where cur: "progress_row demo_started 1 1 = Some cur" by blast
  have side: "(1::nat) < 2 ^ 43 \<and> (200 * 1) mod (2 * 4) \<noteq> (4::nat)" by simp
  have v: "\<lfloor>100 * of_nat 1 / of_nat 4 + (1/2 :: rat)\<rfloor> = 25" by code_simp
  from progress_percentage_value[OF tot t pos c cur, of 50 60]
  obtain row where
    r: "progress_row (updateModuleCompletionStatus no_faults 50 1 1 demo_started) 1 1 = Some row"
    and e: "1 < (2::nat) ^ 43 \<and> (200 * 1) mod (2 * 4) \<noteq> (4::nat)
              \<longrightarrow> up_progress_percentage row = \<lfloor>100 * of_nat 1 / of_nat 4 + (1/2 :: rat)\<rfloor>"
    and i: "updateModuleCompletionStatus no_faults 60 1 1
              (updateModuleCompletionStatus no_faults 50 1 1 demo_started)
            = updateModuleCompletionStatus no_faults 50 1 1 demo_started"
    by blast
  from e side have "up_progress_percentage row = 25" unfolding v by blast
  with r have ex: "\<exists>row. progress_row (updateModuleCompletionStatus no_faults 50 1 1
      demo_started) 1 1 = Some row \<and> up_progress_percentage row = 25" by blast
  show ?thesis using tot ne c[symmetric] ex i by simp
qed


subsection \<open>C3: the module completion flag and date\<close>





subsection \<open>C4: the certificate threshold\<close>

text \<open>
  C4 does not hold on the code. \<^verbatim>\<open>generateCertificate\<close> selects every completed
  \<^verbatim>\<open>lesson_progress\<close> row of the pair, quiz rows included, and compares their number
  with 80% of the number of lessons; the recomputation of the aggregate, next to it,
  counts lessons with \<^verbatim>\<open>lesson_id LIKE 'lesson-%'\<close>. In the example module (three
  lessons, one quiz), with \<^verbatim>\<open>lesson-1\<close> and \<^verbatim>\<open>lesson-2\<close> completed, two of three
  lessons are completed, which is below 80%, and the call fails with "Module not
  sufficiently completed". Once \<^verbatim>\<open>quiz-1\<close> is completed as well, still two of three
  lessons are completed, yet three completed rows are counted and the certificate
  \<^verbatim>\<open>CERT-90-1-1\<close> is issued.
\<close>

theorem certificate_counts_quiz_rows:
  "module_totals demo_two_lessons 1 = Some (3, 1)
   \<and> completedLessonsCount demo_two_lessons 1 1 = 2
   \<and> generateCertificate no_faults (clock_at 90) 1 1 demo_two_lessons
       = (demo_two_lessons, Failure Module_not_sufficiently_completed)
   \<and> module_totals demo_two_lessons_quiz 1 = Some (3, 1)
   \<and> completedLessonsCount demo_two_lessons_quiz 1 1 = 2
   \<and> map lp_lesson_id (completedRows demo_two_lessons_quiz 1 1)
       = [''lesson-1'', ''lesson-2'', ''quiz-1'']
   \<and> snd (generateCertificate no_faults (clock_at 90) 1 1 demo_two_lessons_quiz)
       = Success \<lparr>c_id = 1, c_user_id = 1, c_module_id = 1,
                  c_certificate_code = ''CERT-90-1-1'',
                  c_certificate_data =
                    \<lparr>cd_user = ''amina'', cd_module = ''Algorithms'',
                     cd_completionDate = 91, cd_timeSpent = 180\<rparr>,
                  c_verified = True\<rparr>
   \<and> map c_certificate_code
        (certificates (fst (generateCertificate no_faults (clock_at 90) 1 1
                              demo_two_lessons_quiz)))
       = [''CERT-90-1-1'']"
  by code_simp


subsection \<open>C5: the completion timestamp of a lesson\<close>

text \<open>
  C5 does not hold on the code. In the example store \<^verbatim>\<open>lesson-1\<close> is completed with
  \<^verbatim>\<open>completed_at = 14\<close>. A second call for \<^verbatim>\<open>lesson-1\<close>, again with
  \<^verbatim>\<open>completed = true\<close>, at clock 20, stores \<^verbatim>\<open>completed_at = 23\<close>: the update
  writes the current time whenever the supplied flag is true and never looks at the
  stored flag.
\<close>

theorem completed_at_overwritten:
  "map_option (\<lambda>r. (lp_completed r, lp_completed_at r)) (lesson_row demo_started 1 1 ''lesson-1'')
     = Some (True, Some 14)
   \<and> map_option (\<lambda>r. (lp_completed r, lp_completed_at r))
        (lesson_row (fst (updateLessonProgress no_faults (clock_at 20)
                            (demo_call ''lesson-1'' True 5 None) demo_started)) 1 1 ''lesson-1'')
     = Some (True, Some 23)"
  by code_simp


subsection \<open>C6: no second certificate for a pair\<close>

text \<open>
  C6. After a successful \<^verbatim>\<open>generateCertificate\<close> for a pair, a second call for the
  same pair on the resulting store, at any time, is rejected by the uniqueness
  constraint on (user_id, module_id): it returns the failure that wraps the
  constraint error and leaves the store as it is. Whatever store errors hit the
  second call, it never succeeds and never changes the store, and the certificates
  of the pair are exactly the one row of the first issuance. More generally, in any
  store that holds a certificate for the pair, a call for the pair never succeeds
  and changes nothing.
\<close>

theorem second_issuance_rejected:
  assumes first: "generateCertificate flt clk u m s0 = (s1, Success cert)"
  shows "generateCertificate no_faults clk' u m s1 =
           (s1, Failure (Failed_to_generate_certificate SQLITE_CONSTRAINT))
       \<and> fst (generateCertificate flt' clk' u m s1) = s1
       \<and> snd (generateCertificate flt' clk' u m s1) \<noteq> Success c
       \<and> filter (\<lambda>c. c_user_id c = u \<and> c_module_id c = m) (certificates s1) = [cert]
       \<and> (list_ex (\<lambda>c. c_user_id c = u \<and> c_module_id c = m) (certificates s)
            \<longrightarrow> fst (generateCertificate flt' clk' u m s) = s
                \<and> snd (generateCertificate flt' clk' u m s) \<noteq> Success c)"
proof -
  from generate_success[OF first] obtain urow mrow pc where
    user: "find (\<lambda>r. u_id r = u) (users s0) = Some urow"
    and modl: "find (\<lambda>r. m_id r = m) (modules s0) = Some mrow"
    and parse: "parseContent (m_content mrow) = Inr pc"
    and thr: "\<not> of_nat (length (completedRows s0 u m))
               < js_mul (of_nat (length (list_or_empty (lessons pc)))) dbl_0_8"
    and none: "\<not> list_ex (\<lambda>c. c_user_id c = u \<and> c_module_id c = m) (certificates s0)"
    and cert: "cert = new_certificate clk urow mrow u m s0"
    and s1: "s1 = s0\<lparr>certificates := certificates s0 @ [cert], seq_certificates := c_id cert\<rparr>"
    by blast
  have cu: "c_user_id cert = u \<and> c_module_id cert = m" by (simp add: cert new_certificate_def)
  have ex: "list_ex (\<lambda>c. c_user_id c = u \<and> c_module_id c = m) (certificates s1)"
    using cu by (simp add: s1)
  have user1: "find (\<lambda>r. u_id r = u) (users s1) = Some urow" using user by (simp add: s1)
  have modl1: "find (\<lambda>r. m_id r = m) (modules s1) = Some mrow" using modl by (simp add: s1)
  have rows1: "completedRows s1 u m = completedRows s0 u m" by (simp add: s1 completedRows_def)
  have a: "generateCertificate no_faults clk' u m s1 =
           (s1, Failure (Failed_to_generate_certificate SQLITE_CONSTRAINT))"
    unfolding generate_no_faults[OF user1 modl1 parse] rows1 using thr ex by simp
  have "filter (\<lambda>c. c_user_id c = u \<and> c_module_id c = m) (certificates s0) = []"
    using none by (rule filter_no_match)
  then have d: "filter (\<lambda>c. c_user_id c = u \<and> c_module_id c = m) (certificates s1) = [cert]"
    using cu by (simp add: s1)
  have g: "list_ex (\<lambda>c. c_user_id c = u \<and> c_module_id c = m) (certificates s)
            \<longrightarrow> fst (generateCertificate flt' clk' u m s) = s
                \<and> snd (generateCertificate flt' clk' u m s) \<noteq> Success c"
    using generate_existing by blast
  show ?thesis using a generate_existing[OF ex] d g by simp
qed

theorem second_issuance_rejected_witness:
  "generateCertificate no_faults (clock_at 90) 1 1 demo_done
     = (demo_certified, Success (new_certificate (clock_at 90) demo_user demo_module 1 1 demo_done))
   \<and> generateCertificate no_faults (clock_at 95) 1 1 demo_certified
       = (demo_certified, Failure (Failed_to_generate_certificate SQLITE_CONSTRAINT))
   \<and> filter (\<lambda>c. c_user_id c = 1 \<and> c_module_id c = 1) (certificates demo_certified)
       = [new_certificate (clock_at 90) demo_user demo_module 1 1 demo_done]"
proof -
  have first: "generateCertificate no_faults (clock_at 90) 1 1 demo_done
     = (demo_certified, Success (new_certificate (clock_at 90) demo_user demo_module 1 1 demo_done))"
    by code_simp
  note T = second_issuance_rejected[OF first, where clk' = "clock_at 95" and flt' = no_faults]
  show ?thesis using first T by blast
qed


subsection \<open>C7: reset removes the progress of the pair and nothing else\<close>

text \<open>
  C7. \<^verbatim>\<open>resetModuleProgress\<close> returns the store with exactly the ModuleProgress and
  LessonProgress rows of the (user, module) pair filtered out, and reports the number
  of lesson rows removed. A following \<^verbatim>\<open>getModuleProgress\<close> returns a null
  moduleProgress and an empty lessonProgress list. The certificates table is
  untouched, so \<^verbatim>\<open>verifyCertificate\<close> answers every code as it did before.
\<close>

theorem reset_removes_pair_rows_only:
  "fst (resetModuleProgress no_faults u m s) =
      s\<lparr>user_progress :=
           filter (\<lambda>r. \<not> (up_user_id r = u \<and> up_module_id r = m)) (user_progress s),
        lesson_progress :=
           filter (\<lambda>r. \<not> (lp_user_id r = u \<and> lp_module_id r = m)) (lesson_progress s)\<rparr>
   \<and> snd (resetModuleProgress no_faults u m s) =
        Success (length (filter (\<lambda>r. lp_user_id r = u \<and> lp_module_id r = m) (lesson_progress s)))
   \<and> getModuleProgress no_faults u m (fst (resetModuleProgress no_faults u m s)) = (None, [])
   \<and> certificates (fst (resetModuleProgress no_faults u m s)) = certificates s
   \<and> verifyCertificate flt code (fst (resetModuleProgress no_faults u m s))
        = verifyCertificate flt code s"
  by (simp add: resetModuleProgress_def delete_user_progress_def delete_lesson_progress_def
        no_faults_def getModuleProgress_def db_get_def db_query_def verifyCertificate_def
        find_filter_not filter_filter_not)

theorem reset_removes_pair_rows_only_witness:
  "getModuleProgress no_faults 1 1 demo_certified \<noteq> (None, [])
   \<and> getModuleProgress no_faults 1 1 (fst (resetModuleProgress no_faults 1 1 demo_certified))
        = (None, [])
   \<and> verifyCertificate no_faults ''CERT-90-1-1''
        (fst (resetModuleProgress no_faults 1 1 demo_certified))
        = verifyCertificate no_faults ''CERT-90-1-1'' demo_certified
   \<and> map_option c_user_id (verifyCertificate no_faults ''CERT-90-1-1'' demo_certified) = Some 1"
proof -
  have a: "getModuleProgress no_faults 1 1 demo_certified \<noteq> (None, [])"
    by code_simp
  have b: "map_option c_user_id (verifyCertificate no_faults ''CERT-90-1-1'' demo_certified)
             = Some 1"
    by code_simp
  note r = reset_removes_pair_rows_only[of 1 1 demo_certified no_faults "''CERT-90-1-1''"]
  show ?thesis
    using a b r[THEN conjunct2, THEN conjunct2, THEN conjunct1]
      r[THEN conjunct2, THEN conjunct2, THEN conjunct2, THEN conjunct2]
    by (intro conjI)
qed


subsection \<open>C8: the module-progress row is created once and then only touched\<close>

text \<open>
  C8. A call of \<^verbatim>\<open>updateLessonProgress\<close> that no store error hits is its three steps
  in a row: the ModuleProgress step, the LessonProgress step, which leaves the
  ModuleProgress rows alone, and the recomputation of the aggregate.

  If the pair has no ModuleProgress row, the first step appends one row with
  \<^verbatim>\<open>started_at\<close> and \<^verbatim>\<open>last_accessed\<close> set to the clock readings of the call,
  \<^verbatim>\<open>completed\<close> false, \<^verbatim>\<open>progress_percentage\<close> 0 and no completion date; and after the
  whole call the table is the old table followed by one row for the pair, with these
  \<^verbatim>\<open>started_at\<close> and \<^verbatim>\<open>last_accessed\<close>, in all columns but the aggregate ones (which the
  recomputation of the same call may set).

  If the pair has a row, the first step changes nothing but \<^verbatim>\<open>last_accessed\<close> of that
  pair; and after the whole call every row has its old key, pair, \<^verbatim>\<open>started_at\<close> and
  \<^verbatim>\<open>total_time_spent\<close>, the rows of other pairs their old \<^verbatim>\<open>last_accessed\<close>, the row of
  the pair the clock reading of the call.

  And no call of \<^verbatim>\<open>updateLessonProgress\<close>, whatever store errors hit it, changes the
  \<^verbatim>\<open>started_at\<close> of an existing row: the column of \<^verbatim>\<open>started_at\<close> values only grows
  at the end.
\<close>

theorem module_progress_row_lifecycle:
  "(\<exists>s1 s2. touchModuleProgress no_faults clk pd s = Inr s1 \<and>
            upsertLessonProgress no_faults clk pd s1 = Inr s2 \<and>
            user_progress s2 = user_progress s1 \<and>
            fst (updateLessonProgress no_faults clk pd s)
              = updateModuleCompletionStatus no_faults (clk 5) (pd_userId pd) (pd_moduleId pd) s2)
   \<and> (progress_row s (pd_userId pd) (pd_moduleId pd) = None \<longrightarrow>
      (\<exists>s1 row. touchModuleProgress no_faults clk pd s = Inr s1 \<and>
         user_progress s1 = user_progress s @ [row] \<and>
         progress_row s1 (pd_userId pd) (pd_moduleId pd) = Some row \<and>
         up_started_at row = Some (clk 0) \<and> up_last_accessed row = clk 1 \<and>
         \<not> up_completed row \<and> up_progress_percentage row = 0 \<and>
         up_completion_date row = None)
      \<and> map bookkeeping_fields (user_progress (fst (updateLessonProgress no_faults clk pd s)))
           = map bookkeeping_fields (user_progress s) @
               [(next_rowid (seq_user_progress s) (map up_id (user_progress s)),
                 pd_userId pd, pd_moduleId pd, Some (clk 0), 0, clk 1)]
      \<and> (\<exists>row. progress_row (fst (updateLessonProgress no_faults clk pd s))
                   (pd_userId pd) (pd_moduleId pd) = Some row \<and>
                 up_started_at row = Some (clk 0) \<and> up_last_accessed row = clk 1))
   \<and> (\<forall>r. progress_row s (pd_userId pd) (pd_moduleId pd) = Some r \<longrightarrow>
         touchModuleProgress no_faults clk pd s =
           Inr (s\<lparr>user_progress :=
                   map (\<lambda>x. if up_user_id x = pd_userId pd \<and> up_module_id x = pd_moduleId pd
                             then x\<lparr>up_last_accessed := clk 2\<rparr> else x) (user_progress s)\<rparr>)
         \<and> map bookkeeping_fields (user_progress (fst (updateLessonProgress no_faults clk pd s)))
             = map (\<lambda>x. bookkeeping_fields
                           (if up_user_id x = pd_userId pd \<and> up_module_id x = pd_moduleId pd
                            then x\<lparr>up_last_accessed := clk 2\<rparr> else x)) (user_progress s)
         \<and> (\<exists>row. progress_row (fst (updateLessonProgress no_faults clk pd s))
                     (pd_userId pd) (pd_moduleId pd) = Some row \<and>
                   up_id row = up_id r \<and> up_started_at row = up_started_at r \<and>
                   up_total_time_spent row = up_total_time_spent r \<and>
                   up_last_accessed row = clk 2))
   \<and> (\<exists>new. map up_started_at (user_progress (fst (updateLessonProgress flt clk pd s)))
               = map up_started_at (user_progress s) @ new)"
proof (intro conjI impI allI)
  show "\<exists>s1 s2. touchModuleProgress no_faults clk pd s = Inr s1 \<and>
            upsertLessonProgress no_faults clk pd s1 = Inr s2 \<and>
            user_progress s2 = user_progress s1 \<and>
            fst (updateLessonProgress no_faults clk pd s)
              = updateModuleCompletionStatus no_faults (clk 5) (pd_userId pd) (pd_moduleId pd) s2"
    by (rule ulp_steps)
next
  assume n: "progress_row s (pd_userId pd) (pd_moduleId pd) = None"
  show "\<exists>s1 row. touchModuleProgress no_faults clk pd s = Inr s1 \<and>
         user_progress s1 = user_progress s @ [row] \<and>
         progress_row s1 (pd_userId pd) (pd_moduleId pd) = Some row \<and>
         up_started_at row = Some (clk 0) \<and> up_last_accessed row = clk 1 \<and>
         \<not> up_completed row \<and> up_progress_percentage row = 0 \<and>
         up_completion_date row = None"
    using n unfolding touch_None[OF n]
    by (simp add: progress_row_def find_append_new)
  show "map bookkeeping_fields (user_progress (fst (updateLessonProgress no_faults clk pd s)))
           = map bookkeeping_fields (user_progress s) @
               [(next_rowid (seq_user_progress s) (map up_id (user_progress s)),
                 pd_userId pd, pd_moduleId pd, Some (clk 0), 0, clk 1)]"
    by (rule ulp_fresh(1)[OF n])
  show "\<exists>row. progress_row (fst (updateLessonProgress no_faults clk pd s))
                   (pd_userId pd) (pd_moduleId pd) = Some row \<and>
                 up_started_at row = Some (clk 0) \<and> up_last_accessed row = clk 1"
    by (rule ulp_fresh(2)[OF n])
next
  fix r assume r: "progress_row s (pd_userId pd) (pd_moduleId pd) = Some r"
  show "touchModuleProgress no_faults clk pd s =
           Inr (s\<lparr>user_progress :=
                   map (\<lambda>x. if up_user_id x = pd_userId pd \<and> up_module_id x = pd_moduleId pd
                             then x\<lparr>up_last_accessed := clk 2\<rparr> else x) (user_progress s)\<rparr>)"
    by (rule touch_Some[OF r])
  show "map bookkeeping_fields (user_progress (fst (updateLessonProgress no_faults clk pd s)))
             = map (\<lambda>x. bookkeeping_fields
                           (if up_user_id x = pd_userId pd \<and> up_module_id x = pd_moduleId pd
                            then x\<lparr>up_last_accessed := clk 2\<rparr> else x)) (user_progress s)"
    by (rule ulp_existing(1)[OF r])
  show "\<exists>row. progress_row (fst (updateLessonProgress no_faults clk pd s))
                     (pd_userId pd) (pd_moduleId pd) = Some row \<and>
                   up_id row = up_id r \<and> up_started_at row = up_started_at r \<and>
                   up_total_time_spent row = up_total_time_spent r \<and>
                   up_last_accessed row = clk 2"
    by (rule ulp_existing(2)[OF r])
next
  show "\<exists>new. map up_started_at (user_progress (fst (updateLessonProgress flt clk pd s)))
               = map up_started_at (user_progress s) @ new"
  proof (cases "touchModuleProgress flt clk pd s")
    case (Inl e)
    then show ?thesis by (simp add: updateLessonProgress_def)
  next
    case (Inr s1)
    note t = touch_frame(5)[OF Inr]
    show ?thesis
    proof (cases "upsertLessonProgress flt clk pd s1")
      case (Inl e)
      then show ?thesis using Inr t by (simp add: updateLessonProgress_def)
    next
      case (Inr s2)
      have "user_progress s2 = user_progress s1" by (rule upsert_frame(1)[OF Inr])
      then show ?thesis using \<open>touchModuleProgress flt clk pd s = Inr s1\<close> Inr t
        by (auto simp: updateLessonProgress_def Let_def recompute_frame
              split: sum.splits option.splits)
    qed
  qed
qed

theorem module_progress_row_lifecycle_witness:
  "progress_row demo_db 1 1 = None
   \<and> (\<exists>s1 row. touchModuleProgress no_faults (clock_at 10)
                   (demo_call ''lesson-1'' True 60 None) demo_db = Inr s1 \<and>
         progress_row s1 1 1 = Some row \<and> up_started_at row = Some 10 \<and>
         up_last_accessed row = 11 \<and> \<not> up_completed row \<and> up_progress_percentage row = 0)
   \<and> map bookkeeping_fields
        (user_progress (fst (updateLessonProgress no_faults (clock_at 10)
                               (demo_call ''lesson-1'' True 60 None) demo_db)))
       = [(1, 1, 1, Some 10, 0, 11)]
   \<and> map bookkeeping_fields (user_progress demo_started) = [(1, 1, 1, Some 10, 0, 11)]
   \<and> progress_row demo_started 1 1 \<noteq> None
   \<and> touchModuleProgress no_faults (clock_at 20) (demo_call ''lesson-2'' True 90 None)
         demo_started =
       Inr (demo_started\<lparr>user_progress :=
              map (\<lambda>x. if up_user_id x = 1 \<and> up_module_id x = 1
                        then x\<lparr>up_last_accessed := 22\<rparr> else x)
                (user_progress demo_started)\<rparr>)
   \<and> map bookkeeping_fields
        (user_progress (fst (updateLessonProgress no_faults (clock_at 20)
                               (demo_call ''lesson-2'' True 90 None) demo_started)))
       = [(1, 1, 1, Some 10, 0, 22)]"
proof -
  let ?pd1 = "demo_call ''lesson-1'' True 60 None"
  let ?pd2 = "demo_call ''lesson-2'' True 90 None"
  have u: "pd_userId ?pd1 = 1" "pd_moduleId ?pd1 = 1" "pd_userId ?pd2 = 1" "pd_moduleId ?pd2 = 1"
    by (simp_all add: demo_call_def)
  have c: "clock_at 10 0 = 10" "clock_at 10 1 = 11" "clock_at 20 2 = 22"
    by (simp_all add: clock_at_def)
  have h1: "progress_row demo_db 1 1 = None" by code_simp
  have e1: "map bookkeeping_fields (user_progress demo_db) = []" by code_simp
  have n1: "next_rowid (seq_user_progress demo_db) (map up_id (user_progress demo_db)) = 1"
    by code_simp
  have b2: "map bookkeeping_fields (user_progress demo_started) = [(1, 1, 1, Some 10, 0, 11)]"
    by code_simp
  have m2: "map (\<lambda>x. bookkeeping_fields
                        (if up_user_id x = 1 \<and> up_module_id x = 1
                         then x\<lparr>up_last_accessed := 22\<rparr> else x)) (user_progress demo_started)
            = [(1, 1, 1, Some 10, 0, 22)]"
    by code_simp
  have h2: "progress_row demo_started 1 1 \<noteq> None" by code_simp
  then obtain r where h2': "progress_row demo_started 1 1 = Some r" by blast
  note L1 = module_progress_row_lifecycle[of "clock_at 10" ?pd1 demo_db no_faults,
              unfolded u c, THEN conjunct2, THEN conjunct1, rule_format, OF h1]
  note L2 = module_progress_row_lifecycle[of "clock_at 20" ?pd2 demo_started no_faults,
              unfolded u c, THEN conjunct2, THEN conjunct2, THEN conjunct1, rule_format, OF h2']
  from L1 have A: "\<exists>s1 row. touchModuleProgress no_faults (clock_at 10) ?pd1 demo_db = Inr s1 \<and>
         progress_row s1 1 1 = Some row \<and> up_started_at row = Some 10 \<and>
         up_last_accessed row = 11 \<and> \<not> up_completed row \<and> up_progress_percentage row = 0"
    by blast
  from L1 have B: "map bookkeeping_fields
        (user_progress (fst (updateLessonProgress no_faults (clock_at 10) ?pd1 demo_db)))
       = [(1, 1, 1, Some 10, 0, 11)]"
    unfolding e1 n1 by simp
  from L2 have C: "touchModuleProgress no_faults (clock_at 20) ?pd2 demo_started =
       Inr (demo_started\<lparr>user_progress :=
              map (\<lambda>x. if up_user_id x = 1 \<and> up_module_id x = 1
                        then x\<lparr>up_last_accessed := 22\<rparr> else x)
                (user_progress demo_started)\<rparr>)"
    by blast
  from L2 have D: "map bookkeeping_fields
        (user_progress (fst (updateLessonProgress no_faults (clock_at 20) ?pd2 demo_started)))
       = [(1, 1, 1, Some 10, 0, 22)]"
    unfolding m2 by blast
  show ?thesis using h1 h2 A B b2 C D by (intro conjI)
qed


subsection \<open>C9: a failed recomputation is swallowed\<close>

text \<open>
  C9. Let no store statement of \<^verbatim>\<open>updateLessonProgress\<close> outside the recomputation
  reject (statements 0 to 3 and the read-back 9). Then the two first steps succeed,
  and the call returns success with the LessonProgress row as the second step left
  it (the supplied flag, the accumulated time: the delta for a new row, the sum in
  binary64 of the stored time and the delta for an existing one), whatever happens
  inside the recomputation. If the module read rejects, the recomputation throws; and whenever
  the recomputation throws (a rejected statement, or a content that does not parse),
  the store returned is the store reached after the second step: the ModuleProgress
  rows are those left by the first step, so the aggregate columns of every row that
  existed before the call keep their values.
\<close>

theorem recompute_failure_is_swallowed:
  assumes ok: "\<not> flt 0" "\<not> flt 1" "\<not> flt 2" "\<not> flt 3" "\<not> flt 9"
  shows "\<exists>s1 s2 row.
           touchModuleProgress flt clk pd s = Inr s1 \<and>
           upsertLessonProgress flt clk pd s1 = Inr s2 \<and>
           lesson_row s2 (pd_userId pd) (pd_moduleId pd) (pd_lessonId pd) = Some row \<and>
           lp_completed row = pd_completed pd \<and>
           lp_time_spent row =
             (case lesson_row s (pd_userId pd) (pd_moduleId pd) (pd_lessonId pd) of
                None \<Rightarrow> pd_timeSpent pd
              | Some existing \<Rightarrow> js_add (js_or0 (lp_time_spent existing)) (pd_timeSpent pd)) \<and>
           snd (updateLessonProgress flt clk pd s) = Success row \<and>
           (flt 4 \<longrightarrow>
              updateModuleCompletionStatus_body (\<lambda>i. flt (i + 4)) (clk 5)
                (pd_userId pd) (pd_moduleId pd) s2 = Inl SQLITE_ERROR) \<and>
           (\<forall>e. updateModuleCompletionStatus_body (\<lambda>i. flt (i + 4)) (clk 5)
                  (pd_userId pd) (pd_moduleId pd) s2 = Inl e \<longrightarrow>
                fst (updateLessonProgress flt clk pd s) = s2 \<and>
                user_progress s2 = user_progress s1 \<and>
                (\<exists>new. map aggregate_fields (user_progress s2)
                         = map aggregate_fields (user_progress s) @ new))"
proof -
  obtain s1 where t0: "touchModuleProgress no_faults clk pd s = Inr s1"
    using touch_total by blast
  obtain s2 where u0: "upsertLessonProgress no_faults clk pd s1 = Inr s2"
    using upsert_total by blast
  have t: "touchModuleProgress flt clk pd s = Inr s1"
    using t0 ok by (simp add: touch_no_faults_eq)
  have u: "upsertLessonProgress flt clk pd s1 = Inr s2"
    using u0 ok by (simp add: upsert_no_faults_eq)
  from upsert_row[OF u0] obtain row where
    row: "lesson_row s2 (pd_userId pd) (pd_moduleId pd) (pd_lessonId pd) = Some row"
    and rc: "lp_completed row = pd_completed pd"
    and rt0: "lp_time_spent row =
             (case lesson_row s1 (pd_userId pd) (pd_moduleId pd) (pd_lessonId pd) of
                None \<Rightarrow> pd_timeSpent pd
              | Some existing \<Rightarrow> js_add (js_or0 (lp_time_spent existing)) (pd_timeSpent pd))"
    by blast
  have "lesson_progress s1 = lesson_progress s" by (rule touch_frame(1)[OF t])
  then have rt: "lp_time_spent row =
             (case lesson_row s (pd_userId pd) (pd_moduleId pd) (pd_lessonId pd) of
                None \<Rightarrow> pd_timeSpent pd
              | Some existing \<Rightarrow> js_add (js_or0 (lp_time_spent existing)) (pd_timeSpent pd))"
    using rt0 by (simp add: lesson_row_def)
  let ?s3 = "updateModuleCompletionStatus (\<lambda>i. flt (i + 4)) (clk 5)
               (pd_userId pd) (pd_moduleId pd) s2"
  have l3: "lesson_progress ?s3 = lesson_progress s2" by (rule recompute_frame(1))
  have res: "updateLessonProgress flt clk pd s = (?s3, Success row)"
    using row ok(5) by (simp add: updateLessonProgress_def t u Let_def db_get_def l3 lesson_row_def)
  have f4: "flt 4 \<longrightarrow> updateModuleCompletionStatus_body (\<lambda>i. flt (i + 4)) (clk 5)
                (pd_userId pd) (pd_moduleId pd) s2 = Inl SQLITE_ERROR"
    by (simp add: updateModuleCompletionStatus_body_def db_get_def)
  have sw: "fst (updateLessonProgress flt clk pd s) = s2 \<and>
            user_progress s2 = user_progress s1 \<and>
            (\<exists>new. map aggregate_fields (user_progress s2)
                         = map aggregate_fields (user_progress s) @ new)"
    if "updateModuleCompletionStatus_body (\<lambda>i. flt (i + 4)) (clk 5)
                  (pd_userId pd) (pd_moduleId pd) s2 = Inl e" for e
    using that touch_aggregate_fields[OF t] upsert_frame(1)[OF u]
    by (simp add: res updateModuleCompletionStatus_def)
  show ?thesis
    using t u row rc rt res f4 sw by auto
qed

theorem recompute_failure_is_swallowed_witness:
  "fault_at 4 4 \<and> \<not> fault_at 4 0 \<and> \<not> fault_at 4 1 \<and> \<not> fault_at 4 2 \<and> \<not> fault_at 4 3
   \<and> \<not> fault_at 4 9
   \<and> (\<exists>row. snd (updateLessonProgress (fault_at 4) (clock_at 20)
                    (demo_call ''lesson-2'' True 90 None) demo_started) = Success row
              \<and> lp_completed row \<and> lp_time_spent row = 90)
   \<and> (\<exists>new. map aggregate_fields
               (user_progress (fst (updateLessonProgress (fault_at 4) (clock_at 20)
                    (demo_call ''lesson-2'' True 90 None) demo_started)))
             = map aggregate_fields (user_progress demo_started) @ new)
   \<and> map aggregate_fields (user_progress demo_started) = [(25, False, None)]
   \<and> map aggregate_fields
        (user_progress (fst (updateLessonProgress (fault_at 8) (clock_at 20)
                    (demo_call ''lesson-2'' True 90 None) demo_started)))
       = [(25, False, None)]
   \<and> map aggregate_fields
        (user_progress (fst (updateLessonProgress no_faults (clock_at 20)
                    (demo_call ''lesson-2'' True 90 None) demo_started)))
       = [(50, False, None)]"
proof -
  let ?pd = "demo_call ''lesson-2'' True 90 None"
  have ok: "\<not> fault_at 4 0" "\<not> fault_at 4 1" "\<not> fault_at 4 2" "\<not> fault_at 4 3" "\<not> fault_at 4 9"
    and f4: "fault_at 4 4"
    by (simp_all add: fault_at_def)
  have pd: "pd_userId ?pd = 1" "pd_moduleId ?pd = 1" "pd_lessonId ?pd = ''lesson-2''"
    "pd_completed ?pd" "pd_timeSpent ?pd = 90"
    by (simp_all add: demo_call_def)
  have none: "lesson_row demo_started 1 1 ''lesson-2'' = None" by code_simp
  have before: "map aggregate_fields (user_progress demo_started) = [(25, False, None)]"
    by code_simp
  have wfail: "map aggregate_fields
        (user_progress (fst (updateLessonProgress (fault_at 8) (clock_at 20) ?pd demo_started)))
       = [(25, False, None)]"
    by code_simp
  have healthy: "map aggregate_fields
        (user_progress (fst (updateLessonProgress no_faults (clock_at 20) ?pd demo_started)))
       = [(50, False, None)]"
    by code_simp
  from recompute_failure_is_swallowed[OF ok, of "clock_at 20" ?pd demo_started]
  obtain s2 row where
    r: "snd (updateLessonProgress (fault_at 4) (clock_at 20) ?pd demo_started) = Success row"
    and rc: "lp_completed row = pd_completed ?pd"
    and rt: "lp_time_spent row =
               (case lesson_row demo_started (pd_userId ?pd) (pd_moduleId ?pd) (pd_lessonId ?pd) of
                  None \<Rightarrow> pd_timeSpent ?pd
                | Some existing \<Rightarrow> js_add (js_or0 (lp_time_spent existing)) (pd_timeSpent ?pd))"
    and thrown: "fault_at 4 4 \<longrightarrow>
        updateModuleCompletionStatus_body (\<lambda>i. fault_at 4 (i + 4)) (clock_at 20 5)
          (pd_userId ?pd) (pd_moduleId ?pd) s2 = Inl SQLITE_ERROR"
    and sw: "\<forall>e. updateModuleCompletionStatus_body (\<lambda>i. fault_at 4 (i + 4)) (clock_at 20 5)
                  (pd_userId ?pd) (pd_moduleId ?pd) s2 = Inl e \<longrightarrow>
               fst (updateLessonProgress (fault_at 4) (clock_at 20) ?pd demo_started) = s2 \<and>
               (\<exists>new. map aggregate_fields (user_progress s2)
                       = map aggregate_fields (user_progress demo_started) @ new)"
    by blast
  have rc': "lp_completed row" using rc pd(4) by simp
  have rt': "lp_time_spent row = 90" using rt by (simp only: pd none option.case)
  from thrown f4 sw have
    "fst (updateLessonProgress (fault_at 4) (clock_at 20) ?pd demo_started) = s2 \<and>
     (\<exists>new. map aggregate_fields (user_progress s2)
             = map aggregate_fields (user_progress demo_started) @ new)"
    by blast
  then have
    "\<exists>new. map aggregate_fields
              (user_progress (fst (updateLessonProgress (fault_at 4) (clock_at 20) ?pd demo_started)))
            = map aggregate_fields (user_progress demo_started) @ new"
    by auto
  moreover have "\<exists>row. snd (updateLessonProgress (fault_at 4) (clock_at 20) ?pd demo_started)
                   = Success row \<and> lp_completed row \<and> lp_time_spent row = 90"
    using r rc' rt' by blast
  ultimately show ?thesis using ok f4 before wfail healthy by (intro conjI)
qed


subsection \<open>C10: the aggregate ignores the passing score\<close>

text \<open>
  C10. Take a recomputation of the aggregate of a pair that no store error hits, on a
  module whose content parses and has \<open>nl\<close> lessons and \<open>nq\<close> quizzes, not both zero,
  for a pair that has a ModuleProgress row. It counts as completed lessons the rows of
  the pair with \<^verbatim>\<open>completed = true\<close> and a lesson id, and as completed quizzes the rows
  of the pair with \<^verbatim>\<open>completed = true\<close>, a quiz id and a score, whatever the score; the
  row of the pair then holds \<^verbatim>\<open>completed = true\<close> exactly when there are at least \<open>nl\<close>
  such lesson rows and at least \<open>nq\<close> such quiz rows, the percentage of these counts,
  and the completion date \<open>now\<close> if the row was not completed and is now, the old date
  otherwise.

  Rewriting the passing score of every quiz in the store, in any way, changes
  nothing in what \<^verbatim>\<open>updateLessonProgress\<close> and the recomputation do to the progress
  tables, nor the response: the passing score is never consulted. So in the
  module with one lesson and one quiz of passing score 70, completing the lesson and
  then the quiz with score 10 yields \<^verbatim>\<open>progress_percentage = 100\<close> and
  \<^verbatim>\<open>completed = true\<close>, with the completion date of the quiz call.
\<close>

theorem passing_score_never_consulted:
  "(\<forall>nl nq cur.
      module_totals s m = Some (nl, nq) \<and> 0 < nl + nq \<and> progress_row s u m = Some cur \<longrightarrow>
      map_option aggregate_fields
        (progress_row (updateModuleCompletionStatus no_faults now u m s) u m)
      = Some
          (percentage
             (length (filter (\<lambda>r. lp_user_id r = u \<and> lp_module_id r = m \<and> lp_completed r \<and>
                                   is_lesson_id (lp_lesson_id r)) (lesson_progress s))
              + length (filter (\<lambda>r. lp_user_id r = u \<and> lp_module_id r = m \<and> lp_completed r \<and>
                                     is_quiz_id (lp_lesson_id r) \<and> lp_quiz_score r \<noteq> None)
                          (lesson_progress s)))
             (nl + nq),
           nl \<le> length (filter (\<lambda>r. lp_user_id r = u \<and> lp_module_id r = m \<and> lp_completed r \<and>
                                      is_lesson_id (lp_lesson_id r)) (lesson_progress s))
           \<and> nq \<le> length (filter (\<lambda>r. lp_user_id r = u \<and> lp_module_id r = m \<and>
                                        lp_completed r \<and> is_quiz_id (lp_lesson_id r) \<and>
                                        lp_quiz_score r \<noteq> None) (lesson_progress s)),
           if (nl \<le> length (filter (\<lambda>r. lp_user_id r = u \<and> lp_module_id r = m \<and>
                                         lp_completed r \<and> is_lesson_id (lp_lesson_id r))
                               (lesson_progress s))
               \<and> nq \<le> length (filter (\<lambda>r. lp_user_id r = u \<and> lp_module_id r = m \<and>
                                            lp_completed r \<and> is_quiz_id (lp_lesson_id r) \<and>
                                            lp_quiz_score r \<noteq> None) (lesson_progress s)))
              \<and> \<not> up_completed cur
           then Some now else up_completion_date cur))
   \<and> user_progress (fst (updateLessonProgress flt clk pd (set_passingScores f s)))
     = user_progress (fst (updateLessonProgress flt clk pd s))
   \<and> lesson_progress (fst (updateLessonProgress flt clk pd (set_passingScores f s)))
     = lesson_progress (fst (updateLessonProgress flt clk pd s))
   \<and> snd (updateLessonProgress flt clk pd (set_passingScores f s))
     = snd (updateLessonProgress flt clk pd s)
   \<and> user_progress (updateModuleCompletionStatus flt now u m (set_passingScores f s))
     = user_progress (updateModuleCompletionStatus flt now u m s)
   \<and> map aggregate_fields
        (user_progress
           (run_calls [(clock_at 10, demo_call ''lesson-1'' True 60 None),
                       (clock_at 20, demo_call ''quiz-1'' True 30 (Some 10))] duo_db))
     = [(100, True, Some 25)]"
proof -
  have gen: "map_option aggregate_fields
        (progress_row (updateModuleCompletionStatus no_faults now u m s) u m)
      = Some
          (percentage (completedLessonsCount s u m + completedQuizzesCount s u m) (nl + nq),
           nl \<le> completedLessonsCount s u m \<and> nq \<le> completedQuizzesCount s u m,
           if (nl \<le> completedLessonsCount s u m \<and> nq \<le> completedQuizzesCount s u m)
              \<and> \<not> up_completed cur
           then Some now else up_completion_date cur)"
    if tot: "module_totals s m = Some (nl, nq)" and pos: "0 < nl + nq"
      and cur: "progress_row s u m = Some cur" for nl nq cur
  proof -
    from pos have nz: "nl + nq \<noteq> 0" by simp
    note k = progress_row_key[OF cur]
    show ?thesis
      unfolding recompute_Some[OF tot nz cur] progress_row_set_aggregate cur
      using k by (simp add: aggregate_fields_def set_aggregate_def)
  qed
  have run: "map aggregate_fields
        (user_progress
           (run_calls [(clock_at 10, demo_call ''lesson-1'' True 60 None),
                       (clock_at 20, demo_call ''quiz-1'' True 30 (Some 10))] duo_db))
     = [(100, True, Some 25)]"
    by code_simp
  show ?thesis
  proof (intro conjI allI impI)
    fix nl nq cur
    assume "module_totals s m = Some (nl, nq) \<and> 0 < nl + nq \<and> progress_row s u m = Some cur"
    then have tot: "module_totals s m = Some (nl, nq)" and pos: "0 < nl + nq"
      and cur: "progress_row s u m = Some cur"
      by simp_all
    show "map_option aggregate_fields
        (progress_row (updateModuleCompletionStatus no_faults now u m s) u m)
      = Some
          (percentage
             (length (filter (\<lambda>r. lp_user_id r = u \<and> lp_module_id r = m \<and> lp_completed r \<and>
                                   is_lesson_id (lp_lesson_id r)) (lesson_progress s))
              + length (filter (\<lambda>r. lp_user_id r = u \<and> lp_module_id r = m \<and> lp_completed r \<and>
                                     is_quiz_id (lp_lesson_id r) \<and> lp_quiz_score r \<noteq> None)
                          (lesson_progress s)))
             (nl + nq),
           nl \<le> length (filter (\<lambda>r. lp_user_id r = u \<and> lp_module_id r = m \<and> lp_completed r \<and>
                                      is_lesson_id (lp_lesson_id r)) (lesson_progress s))
           \<and> nq \<le> length (filter (\<lambda>r. lp_user_id r = u \<and> lp_module_id r = m \<and>
                                        lp_completed r \<and> is_quiz_id (lp_lesson_id r) \<and>
                                        lp_quiz_score r \<noteq> None) (lesson_progress s)),
           if (nl \<le> length (filter (\<lambda>r. lp_user_id r = u \<and> lp_module_id r = m \<and>
                                         lp_completed r \<and> is_lesson_id (lp_lesson_id r))
                               (lesson_progress s))
               \<and> nq \<le> length (filter (\<lambda>r. lp_user_id r = u \<and> lp_module_id r = m \<and>
                                            lp_completed r \<and> is_quiz_id (lp_lesson_id r) \<and>
                                            lp_quiz_score r \<noteq> None) (lesson_progress s)))
              \<and> \<not> up_completed cur
           then Some now else up_completion_date cur)"
      using gen[OF tot pos cur]
      unfolding completedLessonsCount_def completedQuizzesCount_def .
  next
    show "user_progress (fst (updateLessonProgress flt clk pd (set_passingScores f s)))
            = user_progress (fst (updateLessonProgress flt clk pd s))"
      by (simp add: update_rescored)
    show "lesson_progress (fst (updateLessonProgress flt clk pd (set_passingScores f s)))
            = lesson_progress (fst (updateLessonProgress flt clk pd s))"
      by (simp add: update_rescored)
    show "snd (updateLessonProgress flt clk pd (set_passingScores f s))
            = snd (updateLessonProgress flt clk pd s)"
      by (simp add: update_rescored)
    show "user_progress (updateModuleCompletionStatus flt now u m (set_passingScores f s))
            = user_progress (updateModuleCompletionStatus flt now u m s)"
      by (simp add: recompute_rescored)
    show "map aggregate_fields
        (user_progress
           (run_calls [(clock_at 10, demo_call ''lesson-1'' True 60 None),
                       (clock_at 20, demo_call ''quiz-1'' True 30 (Some 10))] duo_db))
     = [(100, True, Some 25)]"
      by (rule run)
  qed
qed

theorem passing_score_never_consulted_witness:
  "module_totals duo_stale 1 = Some (1, 1) \<and> (0::nat) < 1 + 1
   \<and> map_option aggregate_fields (progress_row duo_stale 1 1) = Some (50, False, None)
   \<and> map (\<lambda>r. (lp_lesson_id r, lp_completed r, lp_quiz_score r)) (lesson_progress duo_stale)
       = [(''lesson-1'', True, None), (''quiz-1'', True, Some 10)]
   \<and> map_option aggregate_fields
        (progress_row (updateModuleCompletionStatus no_faults 50 1 1 duo_stale) 1 1)
       = Some (100, True, Some 50)
   \<and> map aggregate_fields
     (user_progress
        (fst (updateLessonProgress no_faults (clock_at 10) (demo_call ''quiz-1'' True 30 (Some 10))
                (set_passingScores (\<lambda>q. 0) duo_db))))
   = map aggregate_fields
       (user_progress
          (fst (updateLessonProgress no_faults (clock_at 10) (demo_call ''quiz-1'' True 30 (Some 10))
                  duo_db)))
   \<and> map aggregate_fields
        (user_progress
           (fst (updateLessonProgress no_faults (clock_at 10)
                   (demo_call ''quiz-1'' True 30 (Some 10)) duo_db)))
     = [(50, False, None)]"
proof -
  have tot: "module_totals duo_stale 1 = Some (1, 1)" by code_simp
  have ag: "map_option aggregate_fields (progress_row duo_stale 1 1) = Some (50, False, None)"
    by code_simp
  then obtain cur where cur: "progress_row duo_stale 1 1 = Some cur"
    and cf: "\<not> up_completed cur"
    by (auto simp: aggregate_fields_def)
  have rows: "map (\<lambda>r. (lp_lesson_id r, lp_completed r, lp_quiz_score r)) (lesson_progress duo_stale)
       = [(''lesson-1'', True, None), (''quiz-1'', True, Some 10)]"
    by code_simp
  have cl: "length (filter (\<lambda>r. lp_user_id r = 1 \<and> lp_module_id r = 1 \<and> lp_completed r \<and>
                                is_lesson_id (lp_lesson_id r)) (lesson_progress duo_stale)) = 1"
    by code_simp
  have cq: "length (filter (\<lambda>r. lp_user_id r = 1 \<and> lp_module_id r = 1 \<and> lp_completed r \<and>
                                is_quiz_id (lp_lesson_id r) \<and> lp_quiz_score r \<noteq> None)
                      (lesson_progress duo_stale)) = 1"
    by code_simp
  have pc: "percentage (1 + 1) (1 + 1) = 100" by code_simp
  have pos: "(0::nat) < 1 + 1" by simp
  note T = passing_score_never_consulted[of duo_stale 1 1 50 no_faults "clock_at 10"
            "demo_call ''quiz-1'' True 30 (Some 10)" "\<lambda>q. 0"]
  have A: "map_option aggregate_fields
        (progress_row (updateModuleCompletionStatus no_faults 50 1 1 duo_stale) 1 1)
       = Some (100, True, Some 50)"
    using T[THEN conjunct1, rule_format, of 1 1 cur] tot cur cf
    unfolding cl cq pc by simp
  have v: "map aggregate_fields
        (user_progress
           (fst (updateLessonProgress no_faults (clock_at 10)
                   (demo_call ''quiz-1'' True 30 (Some 10)) duo_db)))
     = [(50, False, None)]"
    by code_simp
  have B: "map aggregate_fields
     (user_progress
        (fst (updateLessonProgress no_faults (clock_at 10) (demo_call ''quiz-1'' True 30 (Some 10))
                (set_passingScores (\<lambda>q. 0) duo_db))))
   = map aggregate_fields
       (user_progress
          (fst (updateLessonProgress no_faults (clock_at 10) (demo_call ''quiz-1'' True 30 (Some 10))
                  duo_db)))"
    using passing_score_never_consulted[of duo_db 1 1 50 no_faults "clock_at 10"
            "demo_call ''quiz-1'' True 30 (Some 10)" "\<lambda>q. 0", THEN conjunct2, THEN conjunct1]
    by simp
  show ?thesis using tot pos ag rows A B v by (intro conjI)
qed

end
